theory Spec2Isabelle
  imports Main "HOL-Library.Sublist" "HOL-Library.AList"
begin

section \<open>The remote-file kitten: \<^verbatim>\<open>kittens/remote_file/main.py\<close>\<close>

text \<open>
  The program fetches a file from a remote host through an ssh-like binary and opens,
  edits or saves it. Everything it does goes through the terminal, the local file
  system and subprocesses, so the embedding threads an explicit \<open>world\<close> through every
  function: the file system, the pending terminal input, the scripted outcomes of the
  subprocesses, and a trace of what was printed and run. An exception is the left
  summand of the result, and a call that never returns (a read that blocks for ever, an
  editor that never exits) is the value \<open>None\<close>.
\<close>

subsection \<open>Strings: \<^verbatim>\<open>str\<close>, \<^verbatim>\<open>os.path\<close>, \<^verbatim>\<open>shlex.quote\<close>\<close>

definition digit_char :: "nat \<Rightarrow> char" where
  "digit_char d = ''0123456789'' ! d"

text \<open>\<^verbatim>\<open>str(n)\<close> for a natural number, and for an integer.\<close>

fun str_nat :: "nat \<Rightarrow> string" where
  "str_nat n = (if n < 10 then [digit_char n] else str_nat (n div 10) @ [digit_char (n mod 10)])"

declare str_nat.simps [simp del]

definition str_int :: "int \<Rightarrow> string" where
  "str_int i = (if i < 0 then CHR ''-'' # str_nat (nat (- i)) else str_nat (nat i))"

text \<open>\<^verbatim>\<open>p.rfind(c)\<close>: the last index of \<open>c\<close>, or \<open>-1\<close>.\<close>

fun rfind :: "char \<Rightarrow> string \<Rightarrow> int" where
  "rfind c [] = - 1"
| "rfind c (x # xs) = (let r = rfind c xs in if 0 \<le> r then r + 1 else if x = c then 0 else - 1)"

definition rstrip :: "char \<Rightarrow> string \<Rightarrow> string" where
  "rstrip c s = rev (dropWhile (\<lambda>x. x = c) (rev s))"

text \<open>The functions of \<^verbatim>\<open>posixpath\<close> the program calls.\<close>

definition basename :: "string \<Rightarrow> string" where
  "basename p = drop (nat (rfind CHR ''/'' p + 1)) p"

definition dirname :: "string \<Rightarrow> string" where
  "dirname p =
     (let head = take (nat (rfind CHR ''/'' p + 1)) p
      in if head \<noteq> [] \<and> head \<noteq> replicate (length head) CHR ''/'' then rstrip CHR ''/'' head
         else head)"

definition join :: "string \<Rightarrow> string \<Rightarrow> string" where
  "join a b =
     (if take 1 b = ''/'' then b
      else if a = [] \<or> last a = CHR ''/'' then a @ b
      else a @ ''/'' @ b)"

text \<open>
  \<^verbatim>\<open>os.path.splitext\<close>: the extension starts at the last dot of the last path
  component, unless that component has nothing but dots before it.
\<close>

definition splitext :: "string \<Rightarrow> string \<times> string" where
  "splitext p =
     (let sepIndex = rfind CHR ''/'' p; dotIndex = rfind CHR ''.'' p
      in if sepIndex < dotIndex \<and>
            list_ex (\<lambda>c. c \<noteq> CHR ''.'') (take (nat (dotIndex - (sepIndex + 1))) (drop (nat (sepIndex + 1)) p))
         then (take (nat dotIndex) p, drop (nat dotIndex) p)
         else (p, []))"

text \<open>\<^verbatim>\<open>sep.join(xs)\<close>.\<close>

fun join_with :: "string \<Rightarrow> string list \<Rightarrow> string" where
  "join_with sep [] = []"
| "join_with sep [x] = x"
| "join_with sep (x # y # ys) = x @ sep @ join_with sep (y # ys)"

text \<open>
  \<^verbatim>\<open>shlex.quote\<close>: a string of safe characters stands as it is, any other is put in
  single quotes, each single quote of its own written \<^verbatim>\<open>'"'"'\<close>.
\<close>

definition safe_char :: "char \<Rightarrow> bool" where
  "safe_char c =
     (c \<in> set ''abcdefghijklmnopqrstuvwxyzABCDEFGHIJKLMNOPQRSTUVWXYZ0123456789_@%+=:,./-'')"

definition quote :: "string \<Rightarrow> string" where
  "quote s =
     (if s = [] then [CHR 0x27, CHR 0x27]
      else if list_all safe_char s then s
      else [CHR 0x27] @
           concat (map (\<lambda>c. if c = CHR 0x27 then [CHR 0x27, CHR 0x22, CHR 0x27, CHR 0x22, CHR 0x27] else [c]) s) @
           [CHR 0x27])"

text \<open>\<^verbatim>\<open>s.lower()\<close> on one ASCII character.\<close>

definition lower :: "char \<Rightarrow> char" where
  "lower c =
     (case map_of (zip ''ABCDEFGHIJKLMNOPQRSTUVWXYZ'' ''abcdefghijklmnopqrstuvwxyz'') c of
        None \<Rightarrow> c
      | Some l \<Rightarrow> l)"

definition is_ascii :: "char \<Rightarrow> bool" where
  "is_ascii c = ((of_char c :: nat) < 128)"

subsection \<open>The world\<close>

text \<open>
  The exceptions the program can meet. \<open>KeyboardInterrupt\<close> and \<open>SystemExit\<close> are
  not subclasses of \<^verbatim>\<open>Exception\<close>: \<^verbatim>\<open>except Exception\<close> lets them pass.
\<close>

datatype exn =
    JSONDecodeError
  | CalledProcessError int "string list"
  | FileNotFoundError string
  | FileExistsError string
  | IsADirectoryError string
  | NotADirectoryError string
  | EOFError
  | KeyboardInterrupt
  | SystemExit int

fun is_Exception :: "exn \<Rightarrow> bool" where
  "is_Exception KeyboardInterrupt = False"
| "is_Exception (SystemExit c) = False"
| "is_Exception e = True"

text \<open>
  The file system is an association list from paths to nodes, so that only finitely
  many paths exist. Paths are compared as they are written.
\<close>

datatype node = Dir (node_mtime: nat) | File (content: string) (node_mtime: nat)

text \<open>What a subprocess is given as standard input, output or error.\<close>

datatype stream = DevNull | Inherit | OnFile string

text \<open>
  The trace: what the program printed and which subprocesses it ran, oldest first.
  A printed line is the list of its arguments; the escape codes of \<^verbatim>\<open>styled\<close>,
  \<^verbatim>\<open>faint\<close> and \<^verbatim>\<open>key\<close> (\<^verbatim>\<open>kitty.tui.operations\<close>, outside this source tree)
  are not spelled out, only that the argument was styled.
\<close>

datatype piece = Plain string | Styled string

datatype event =
    Print "piece list"
  | ResetTerminal
  | CursorVisible bool
  | Run "string list" stream stream stream int
  | Launch "string list"
  | Traceback exn

text \<open>
  One \<^verbatim>\<open>sys.stdin.buffer.read(1)\<close> in raw mode gives a byte, or the empty bytes
  object (end of file), or is interrupted. One line prompt gives the typed line or
  raises \<^verbatim>\<open>KeyboardInterrupt\<close> or \<^verbatim>\<open>EOFError\<close>.
\<close>

datatype key_event = Byte char | NoByte | Interrupt

datatype prompt_event = Typed string | CtrlC | CtrlD

text \<open>
  The editor between two polls: it did nothing, it saved the staged file (new contents,
  new modification time), or it has exited.
\<close>

datatype tick = Idle | Save string nat | Exit

text \<open>A finished subprocess: its exit status and what it wrote to standard output.\<close>

datatype proc = Proc (status: int) (out: string)

text \<open>
  The scripts \<open>keys\<close>, \<open>prompts\<close> and \<open>procs\<close> are consumed from the front; a
  script that has run out means that the read or the subprocess never returns.
  \<open>editor_run\<close> is \<open>None\<close> when the editor cannot be started. \<open>tmpnames\<close> are the
  random names \<^verbatim>\<open>mkdtemp\<close> will try, \<open>now\<close> the time stamp a written file gets.
\<close>

record world =
  fs :: "(string \<times> node) list"
  trace :: "event list"
  keys :: "key_event list"
  prompts :: "prompt_event list"
  procs :: "proc list"
  tmpnames :: "string list"
  editor_run :: "tick list option"
  now :: nat

text \<open>
  What the program reads from its surroundings and never changes: the process id, the
  working directory, \<^verbatim>\<open>tempfile.gettempdir()\<close>, kitty's \<^verbatim>\<open>cache_dir()\<close>,
  \<^verbatim>\<open>get_editor()\<close>, and the path functions that depend on the user's environment.
\<close>

record os_env =
  pid :: nat
  cwd :: string
  tempdir :: string
  cache_dir :: string
  editor :: "string list"
  expanduser :: "string \<Rightarrow> string"
  expandvars :: "string \<Rightarrow> string"
  abspath :: "string \<Rightarrow> string"

type_synonym 'a io = "world \<Rightarrow> ((exn + 'a) \<times> world) option"

definition ret :: "'a \<Rightarrow> 'a io" where
  "ret x w = Some (Inr x, w)"

definition raise :: "exn \<Rightarrow> 'a io" where
  "raise e w = Some (Inl e, w)"

definition io_bind :: "'a io \<Rightarrow> ('a \<Rightarrow> 'b io) \<Rightarrow> 'b io" where
  "io_bind m f w =
     (case m w of
        None \<Rightarrow> None
      | Some (Inl e, w') \<Rightarrow> Some (Inl e, w')
      | Some (Inr x, w') \<Rightarrow> f x w')"

text \<open>
  \<^verbatim>\<open>try: m except ...: h\<close> for the exceptions that \<open>handles\<close> accepts, and
  \<^verbatim>\<open>try: m finally: fin\<close>.
\<close>

definition io_catch :: "'a io \<Rightarrow> (exn \<Rightarrow> bool) \<Rightarrow> (exn \<Rightarrow> 'a io) \<Rightarrow> 'a io" where
  "io_catch m handles h w =
     (case m w of
        Some (Inl e, w') \<Rightarrow> if handles e then h e w' else Some (Inl e, w')
      | r \<Rightarrow> r)"

definition io_finally :: "'a io \<Rightarrow> unit io \<Rightarrow> 'a io" where
  "io_finally m fin w =
     (case m w of
        None \<Rightarrow> None
      | Some (r, w') \<Rightarrow>
          (case fin w' of
             None \<Rightarrow> None
           | Some (Inl e, w'') \<Rightarrow> Some (Inl e, w'')
           | Some (Inr u, w'') \<Rightarrow> Some (r, w'')))"

definition emit :: "event \<Rightarrow> unit io" where
  "emit e w = Some (Inr (), w\<lparr>trace := trace w @ [e]\<rparr>)"

subsection \<open>Files and subprocesses\<close>

definition lookup :: "string \<Rightarrow> world \<Rightarrow> node option" where
  "lookup p w = map_of (fs w) p"

definition path_exists :: "string \<Rightarrow> world \<Rightarrow> bool" where
  "path_exists p w = (lookup p w \<noteq> None)"

definition isdir :: "string \<Rightarrow> world \<Rightarrow> bool" where
  "isdir p w = (case lookup p w of Some (Dir t) \<Rightarrow> True | _ \<Rightarrow> False)"

text \<open>A path is under a directory when it is the directory or lies below it.\<close>

definition under_dir :: "string \<Rightarrow> string \<Rightarrow> bool" where
  "under_dir d p = (p = d \<or> prefix (d @ ''/'') p)"

text \<open>\<^verbatim>\<open>open(p, 'w')\<close> followed by writing \<open>s\<close>.\<close>

definition write_file :: "string \<Rightarrow> string \<Rightarrow> unit io" where
  "write_file p s w =
     (if isdir p w then Some (Inl (IsADirectoryError p), w)
      else Some (Inr (), w\<lparr>fs := AList.update p (File s (now w)) (fs w)\<rparr>))"

text \<open>\<^verbatim>\<open>open(p)\<close> for reading: the contents.\<close>

definition read_file :: "string \<Rightarrow> string io" where
  "read_file p w =
     (case lookup p w of
        None \<Rightarrow> Some (Inl (FileNotFoundError p), w)
      | Some (Dir t) \<Rightarrow> Some (Inl (IsADirectoryError p), w)
      | Some (File s t) \<Rightarrow> Some (Inr s, w))"

definition getmtime :: "string \<Rightarrow> nat io" where
  "getmtime p w =
     (case lookup p w of
        None \<Rightarrow> Some (Inl (FileNotFoundError p), w)
      | Some n \<Rightarrow> Some (Inr (node_mtime n), w))"

text \<open>\<^verbatim>\<open>os.makedirs(p, exist_ok=True)\<close>.\<close>

definition makedirs :: "string \<Rightarrow> unit io" where
  "makedirs p w =
     (case lookup p w of
        None \<Rightarrow> Some (Inr (), w\<lparr>fs := AList.update p (Dir (now w)) (fs w)\<rparr>)
      | Some (Dir t) \<Rightarrow> Some (Inr (), w)
      | Some (File s t) \<Rightarrow> Some (Inl (FileExistsError p), w))"

text \<open>
  \<^verbatim>\<open>tempfile.mkdtemp()\<close>: a new directory under the temporary directory, named by
  the first random name that is free.
\<close>

definition mkdtemp :: "os_env \<Rightarrow> string io" where
  "mkdtemp env w =
     (case dropWhile (\<lambda>n. path_exists (join (tempdir env) (''tmp'' @ n)) w) (tmpnames w) of
        [] \<Rightarrow> Some (Inl (FileExistsError (tempdir env)), w\<lparr>tmpnames := []\<rparr>)
      | n # ns \<Rightarrow>
          (let d = join (tempdir env) (''tmp'' @ n)
           in Some (Inr d, w\<lparr>tmpnames := ns, fs := AList.update d (Dir (now w)) (fs w)\<rparr>)))"

text \<open>\<^verbatim>\<open>shutil.rmtree(d)\<close>: the directory and everything under it.\<close>

definition rmtree :: "string \<Rightarrow> unit io" where
  "rmtree d w =
     (case lookup d w of
        None \<Rightarrow> Some (Inl (FileNotFoundError d), w)
      | Some (File s t) \<Rightarrow> Some (Inl (NotADirectoryError d), w)
      | Some (Dir t) \<Rightarrow> Some (Inr (), w\<lparr>fs := filter (\<lambda>(p, n). \<not> under_dir d p) (fs w)\<rparr>))"

text \<open>
  A subprocess run to its end: the next outcome of the script, recorded in the trace
  with the command line and the three streams. Standard output that goes to a file
  becomes the file's contents.
\<close>

definition run :: "string list \<Rightarrow> stream \<Rightarrow> stream \<Rightarrow> stream \<Rightarrow> int io" where
  "run argv sin sout serr w =
     (case procs w of
        [] \<Rightarrow> None
      | p # ps \<Rightarrow>
          (let w' = w\<lparr>procs := ps, trace := trace w @ [Run argv sin sout serr (status p)]\<rparr>
           in Some (Inr (status p),
                    case sout of
                      OnFile f \<Rightarrow> w'\<lparr>fs := AList.update f (File (out p) (now w)) (fs w)\<rparr>
                    | _ \<Rightarrow> w')))"

text \<open>\<^verbatim>\<open>subprocess.check_call(argv)\<close>.\<close>

definition check_call :: "string list \<Rightarrow> unit io" where
  "check_call argv =
     io_bind (run argv Inherit Inherit Inherit)
       (\<lambda>rc. if rc \<noteq> 0 then raise (CalledProcessError rc argv) else ret ())"

subsection \<open>Reading the terminal\<close>

text \<open>
  The loop of \<^verbatim>\<open>get_key_press\<close> over the pending input. Escape and Ctrl-C leave the
  loop, and so does an interrupted read. A byte that is not ASCII fails to decode and
  is skipped. Any other byte is decoded, lowered and \<^emph>\<open>stored in the response\<close>, and
  the loop is left when the response is one of the allowed characters.
\<close>

fun get_key_loop :: "string \<Rightarrow> string \<Rightarrow> key_event list \<Rightarrow> (string \<times> key_event list) option" where
  "get_key_loop allowed response [] = None"
| "get_key_loop allowed response (Interrupt # ks) = Some (response, ks)"
| "get_key_loop allowed response (NoByte # ks) = get_key_loop allowed response ks"
| "get_key_loop allowed response (Byte q # ks) =
     (if q = CHR 0x1B \<or> q = CHR 0x03 then Some (response, ks)
      else if \<not> is_ascii q then get_key_loop allowed response ks
      else if lower q \<in> set allowed then Some ([lower q], ks)
      else get_key_loop allowed [lower q] ks)"

definition get_key_press :: "string \<Rightarrow> string \<Rightarrow> string io" where
  "get_key_press allowed dflt w =
     (case get_key_loop allowed dflt (keys w) of
        None \<Rightarrow> None
      | Some (response, ks) \<Rightarrow> Some (Inr response, w\<lparr>keys := ks\<rparr>))"

text \<open>The loop of \<^verbatim>\<open>show_error\<close>: it waits for any byte or an interrupt.\<close>

fun wait_key :: "key_event list \<Rightarrow> key_event list option" where
  "wait_key [] = None"
| "wait_key (NoByte # ks) = wait_key ks"
| "wait_key (k # ks) = Some ks"

definition show_error :: "string \<Rightarrow> unit io" where
  "show_error msg =
     io_bind (emit (Print [Styled msg])) (\<lambda>_.
     io_bind (emit (Print [])) (\<lambda>_.
     io_bind (emit (Print [Plain ''Press any key to exit...''])) (\<lambda>_ w.
       case wait_key (keys w) of
         None \<Rightarrow> None
       | Some ks \<Rightarrow> Some (Inr (), w\<lparr>keys := ks\<rparr>))))"

text \<open>A line prompt (\<^verbatim>\<open>input\<close>, \<^verbatim>\<open>PathCompleter().input\<close>).\<close>

definition read_line :: "string io" where
  "read_line w =
     (case prompts w of
        [] \<Rightarrow> None
      | Typed s # ps \<Rightarrow> Some (Inr s, w\<lparr>prompts := ps\<rparr>)
      | CtrlC # ps \<Rightarrow> Some (Inl KeyboardInterrupt, w\<lparr>prompts := ps\<rparr>)
      | CtrlD # ps \<Rightarrow> Some (Inl EOFError, w\<lparr>prompts := ps\<rparr>))"

subsection \<open>The action menu\<close>

text \<open>\<^verbatim>\<open>RemoteFileCLIOptions\<close>, as \<^verbatim>\<open>option_text\<close> declares it.\<close>

record conn_data =
  binary :: string
  hostname :: string
  port :: "int option"

text \<open>
  The option \<^verbatim>\<open>--ssh-connection-data\<close>, as \<^verbatim>\<open>json.loads\<close> and the constructor
  \<^verbatim>\<open>SSHConnectionData\<close> (neither is in this source tree) take it: \<open>Missing\<close> is
  \<^verbatim>\<open>None\<close> or the empty string and \<open>Malformed s\<close> a text that is not JSON, and
  on both \<^verbatim>\<open>json.loads\<close> raises \<^verbatim>\<open>JSONDecodeError\<close>; \<open>Serialized d\<close> is the JSON
  array that kitty's ssh kitten writes for the descriptor \<open>d\<close>. JSON values of any
  other shape are not modelled.
\<close>

datatype payload = Missing | Malformed string | Serialized conn_data

record opts =
  opt_mode :: string
  opt_path :: "string option"
  opt_hostname :: "string option"
  ssh_connection_data :: payload

definition SSHConnectionData :: "payload \<Rightarrow> conn_data io" where
  "SSHConnectionData p =
     (case p of
        Missing \<Rightarrow> raise JSONDecodeError
      | Malformed s \<Rightarrow> raise JSONDecodeError
      | Serialized d \<Rightarrow> ret d)"

text \<open>\<^verbatim>\<open>str(x)\<close> and \<^verbatim>\<open>x or d\<close> for an optional string.\<close>

definition str_opt :: "string option \<Rightarrow> string" where
  "str_opt x = (case x of None \<Rightarrow> ''None'' | Some s \<Rightarrow> s)"

definition or_else :: "string option \<Rightarrow> string \<Rightarrow> string" where
  "or_else x d = (case x of None \<Rightarrow> d | Some s \<Rightarrow> if s = [] then d else s)"

definition ask_action :: "opts \<Rightarrow> string io" where
  "ask_action cli_opts =
     io_bind (emit (Print [Plain ''What would you like to do with the remote file on '',
                           Styled (or_else (opt_hostname cli_opts) ''unknown''), Plain '':''])) (\<lambda>_.
     io_bind (emit (Print [Styled (or_else (opt_path cli_opts) [])])) (\<lambda>_.
     io_bind (emit (Print [])) (\<lambda>_.
     io_bind (emit (Print [Styled ''E'', Plain ''dit the file''])) (\<lambda>_.
     io_bind (emit (Print [Styled (''The file will be downloaded and opened in an editor. Any changes you save will'' @
                                   '' be automatically sent back to the remote machine'')])) (\<lambda>_.
     io_bind (emit (Print [])) (\<lambda>_.
     io_bind (emit (Print [Styled ''O'', Plain ''pen the file''])) (\<lambda>_.
     io_bind (emit (Print [Styled ''The file will be downloaded and opened by the default open program''])) (\<lambda>_.
     io_bind (emit (Print [])) (\<lambda>_.
     io_bind (emit (Print [Styled ''S'', Plain ''ave the file''])) (\<lambda>_.
     io_bind (emit (Print [Styled ''The file will be downloaded to a destination you select''])) (\<lambda>_.
     io_bind (emit (Print [])) (\<lambda>_.
     io_bind (emit (Print [Styled ''C'', Plain ''ancel''])) (\<lambda>_.
     io_bind (emit (Print [])) (\<lambda>_.
     io_bind (get_key_press ''ceos'' ''c'') (\<lambda>response.
       ret (if response = ''e'' then ''edit''
            else if response = ''o'' then ''open''
            else if response = ''s'' then ''save''
            else ''cancel''))))))))))))))))"

subsection \<open>Commands\<close>

text \<open>\<^verbatim>\<open>if conn_data.port:\<close> holds for a port that is set and is not zero.\<close>

definition port_args :: "conn_data \<Rightarrow> string list" where
  "port_args c = (case port c of None \<Rightarrow> [] | Some p \<Rightarrow> if p \<noteq> 0 then [''-p'', str_int p] else [])"

definition simple_copy_command :: "conn_data \<Rightarrow> string \<Rightarrow> string list" where
  "simple_copy_command c path = [binary c] @ port_args c @ [hostname c, ''cat'', path]"

text \<open>
  \<^verbatim>\<open>ControlMaster\<close>. In \<^verbatim>\<open>__init__\<close> the list \<open>cmd\<close> is \<open>cmd_prefix\<close> itself, so the
  port options appended to \<open>cmd\<close> are in \<open>cmd_prefix\<close> too; \<open>batch_cmd_prefix\<close> is a
  new list. \<open>tdir\<close> and \<open>dest\<close> are set by \<^verbatim>\<open>__enter__\<close>.
\<close>

record master =
  conn_data :: conn_data
  remote_path :: string
  cmd_prefix :: "string list"
  batch_cmd_prefix :: "string list"
  tdir :: string
  dest :: string

definition ControlMaster_init :: "os_env \<Rightarrow> conn_data \<Rightarrow> string \<Rightarrow> master" where
  "ControlMaster_init env c path =
     (let cmd = [binary c, ''-o'', ''ControlPath=~/.ssh/kitty-master-'' @ str_nat (pid env) @ ''-%r@%h:%p'',
                 ''-o'', ''TCPKeepAlive=yes'', ''-o'', ''ControlPersist=yes''] @ port_args c
      in \<lparr>conn_data = c, remote_path = path, cmd_prefix = cmd,
          batch_cmd_prefix = cmd @ [''-o'', ''BatchMode=yes''], tdir = [], dest = []\<rparr>)"

definition ControlMaster_enter :: "os_env \<Rightarrow> master \<Rightarrow> master io" where
  "ControlMaster_enter env self =
     io_bind (check_call (cmd_prefix self @ [''-o'', ''ControlMaster=auto'', ''-fN'', hostname (conn_data self)])) (\<lambda>_.
     io_bind (check_call (batch_cmd_prefix self @ [''-O'', ''check'', hostname (conn_data self)])) (\<lambda>_.
     io_bind (mkdtemp env) (\<lambda>d.
       ret (self\<lparr>tdir := d, dest := join d (basename (remote_path self))\<rparr>))))"

definition ControlMaster_exit :: "master \<Rightarrow> bool io" where
  "ControlMaster_exit self =
     io_bind (run (batch_cmd_prefix self @ [''-O'', ''exit'', hostname (conn_data self)]) DevNull DevNull DevNull) (\<lambda>_.
     io_bind (rmtree (tdir self)) (\<lambda>_.
       ret True))"

definition is_alive :: "master \<Rightarrow> bool io" where
  "is_alive self =
     io_bind (run (batch_cmd_prefix self @ [''-O'', ''check'', hostname (conn_data self)]) DevNull DevNull DevNull) (\<lambda>rc.
       ret (rc = 0))"

definition download :: "master \<Rightarrow> bool io" where
  "download self =
     io_bind (write_file (dest self) []) (\<lambda>_.
     io_bind (run (batch_cmd_prefix self @ [hostname (conn_data self), ''cat'', remote_path self])
                DevNull (OnFile (dest self)) DevNull) (\<lambda>rc.
       ret (rc = 0)))"

definition upload_cmd :: "master \<Rightarrow> bool \<Rightarrow> string list" where
  "upload_cmd self suppress_output =
     (if suppress_output then cmd_prefix self else batch_cmd_prefix self) @
     [hostname (conn_data self), ''cat'', ''>'', remote_path self]"

definition upload :: "master \<Rightarrow> bool \<Rightarrow> bool io" where
  "upload self suppress_output =
     (let cmd = upload_cmd self suppress_output
      in io_bind (if \<not> suppress_output then emit (Print [Plain (join_with '' '' (map quote cmd))]) else ret ()) (\<lambda>_.
         let redirect = (if suppress_output then DevNull else Inherit)
         in io_bind (read_file (dest self)) (\<lambda>_.
            io_bind (run cmd (OnFile (dest self)) redirect redirect) (\<lambda>rc.
              ret (rc = 0)))))"

text \<open>
  The \<^verbatim>\<open>with ControlMaster(...) as master:\<close> statement. When \<^verbatim>\<open>__enter__\<close> raises, the
  body and \<^verbatim>\<open>__exit__\<close> do not run. Otherwise \<^verbatim>\<open>__exit__\<close> runs however the body
  ends, and when the body raised and \<^verbatim>\<open>__exit__\<close> returns a true value, the exception
  is dropped and the program goes on after the statement, where \<^verbatim>\<open>handle_action\<close>
  ends and returns \<^verbatim>\<open>None\<close>.
\<close>

definition with_ControlMaster ::
    "os_env \<Rightarrow> conn_data \<Rightarrow> string \<Rightarrow> (master \<Rightarrow> string option io) \<Rightarrow> string option io" where
  "with_ControlMaster env c path body =
     io_bind (ControlMaster_enter env (ControlMaster_init env c path)) (\<lambda>m w.
       case body m w of
         None \<Rightarrow> None
       | Some (r, w') \<Rightarrow>
           (case ControlMaster_exit m w' of
              None \<Rightarrow> None
            | Some (Inl e, w'') \<Rightarrow> Some (Inl e, w'')
            | Some (Inr suppress, w'') \<Rightarrow>
                (case r of
                   Inr v \<Rightarrow> Some (Inr v, w'')
                 | Inl e \<Rightarrow> if suppress then Some (Inr None, w'') else Some (Inl e, w''))))"

definition save_output :: "string list \<Rightarrow> string \<Rightarrow> bool io" where
  "save_output cmd dest_path =
     io_bind (write_file dest_path []) (\<lambda>_.
     io_bind (run cmd Inherit (OnFile dest_path) Inherit) (\<lambda>rc.
       ret (rc = 0)))"

subsection \<open>The edit flow\<close>

text \<open>What the editor does to the staged file while the program sleeps.\<close>

definition editor_acts :: "tick \<Rightarrow> string \<Rightarrow> unit io" where
  "editor_acts t p w =
     (case t of
        Save s time \<Rightarrow> Some (Inr (), w\<lparr>fs := AList.update p (File s time) (fs w)\<rparr>)
      | _ \<Rightarrow> Some (Inr (), w))"

text \<open>
  \<^verbatim>\<open>subprocess.Popen(editor + [master.dest])\<close>: the handle is the editor's run, one
  tick for each \<^verbatim>\<open>poll()\<close>.
\<close>

definition Popen_editor :: "os_env \<Rightarrow> string \<Rightarrow> tick list io" where
  "Popen_editor env p w =
     (case editor_run w of
        None \<Rightarrow> Some (Inl (FileNotFoundError (join_with '' '' (take 1 (editor env)))), w)
      | Some ts \<Rightarrow> Some (Inr ts, w\<lparr>trace := trace w @ [Launch (editor env @ [p])]\<rparr>))"

text \<open>
  The polling loop (lines 287 to 293). The loop has not returned when the script of
  the editor ends with the editor still running.
\<close>

fun edit_loop :: "master \<Rightarrow> tick list \<Rightarrow> nat \<Rightarrow> unit io" where
  "edit_loop m [] mtime w = None"
| "edit_loop m (Exit # ts) mtime w = Some (Inr (), w)"
| "edit_loop m (t # ts) mtime w =
     io_bind (editor_acts t (dest m)) (\<lambda>_.
     io_bind (getmtime (dest m)) (\<lambda>newmtime.
       if mtime < newmtime then
         io_bind (is_alive m) (\<lambda>alive.
           if alive then io_bind (upload m True) (\<lambda>_ w'. edit_loop m ts newmtime w')
           else (\<lambda>w'. edit_loop m ts newmtime w'))
       else (\<lambda>w'. edit_loop m ts mtime w'))) w"

text \<open>The final upload (lines 294 to 299).\<close>

definition final_upload :: "master \<Rightarrow> unit io" where
  "final_upload m =
     io_bind (emit ResetTerminal) (\<lambda>_.
     io_bind (is_alive m) (\<lambda>alive.
       if alive then
         io_bind (upload m False) (\<lambda>ok.
           if \<not> ok then show_error (''Failed to upload '' @ remote_path m) else ret ())
       else show_error (''Failed to upload '' @ remote_path m @ '', SSH master process died'')))"

text \<open>The body of the \<^verbatim>\<open>with\<close> statement (lines 280 to 299).\<close>

definition edit_body :: "os_env \<Rightarrow> master \<Rightarrow> string option io" where
  "edit_body env m =
     io_bind (download m) (\<lambda>ok.
       if \<not> ok then
         io_bind (show_error (''Failed to download '' @ remote_path m)) (\<lambda>_. ret None)
       else
         io_bind (getmtime (dest m)) (\<lambda>mtime.
         io_bind (emit ResetTerminal) (\<lambda>_.
         io_bind (Popen_editor env (dest m)) (\<lambda>editor_process.
         io_bind (edit_loop m editor_process mtime) (\<lambda>_.
         io_bind (final_upload m) (\<lambda>_.
           ret None))))))"

subsection \<open>The save flow\<close>

text \<open>
  Auto rename (lines 253 to 259): \<open>q\<close> starts as the destination, and while \<open>q\<close>
  exists the counter goes up and \<open>q\<close> becomes the destination with the counter before
  its extension.
\<close>

definition renamed :: "string \<Rightarrow> nat \<Rightarrow> string" where
  "renamed dst c = (case splitext dst of (b, ext) \<Rightarrow> b @ ''-'' @ str_nat c @ ext)"

text \<open>
  The loop ends: a name that exists is no longer than all paths of the file system
  together, and the decimal numeral of \<open>c\<close> grows with \<open>c\<close>.
\<close>

lemma str_nat_bound: "n < 10 ^ length (str_nat n)"
proof (induction n rule: str_nat.induct)
  case (1 n)
  show ?case
  proof (cases "n < 10")
    case True
    then show ?thesis by (simp add: str_nat.simps [of n])
  next
    case False
    with 1 have "n div 10 < 10 ^ length (str_nat (n div 10))" by simp
    then have "n < 10 * 10 ^ length (str_nat (n div 10))" by linarith
    with False show ?thesis by (simp add: str_nat.simps [of n])
  qed
qed

lemma length_renamed: "length (str_nat c) \<le> length (renamed dst c)"
  by (simp add: renamed_def split: prod.splits)

lemma renamed_exists_bound:
  assumes "map_of files (renamed dst k) \<noteq> None"
  shows "k < 10 ^ sum_list (map (length \<circ> fst) files)"
proof -
  from assms have "renamed dst k \<in> fst ` set files"
    by (simp add: map_of_eq_None_iff)
  then have "length (renamed dst k) \<in> set (map (length \<circ> fst) files)"
    by force
  then have "length (renamed dst k) \<le> sum_list (map (length \<circ> fst) files)"
    by (simp add: member_le_sum_list)
  with length_renamed [of k dst] have "length (str_nat k) \<le> sum_list (map (length \<circ> fst) files)"
    by linarith
  then have "(10::nat) ^ length (str_nat k) \<le> 10 ^ sum_list (map (length \<circ> fst) files)"
    by (simp add: power_increasing)
  with str_nat_bound [of k] show ?thesis by linarith
qed

lemma finite_renamed_exists: "finite {k. P k \<and> map_of files (renamed dst k) \<noteq> None}"
proof (rule finite_subset)
  show "{k. P k \<and> map_of files (renamed dst k) \<noteq> None} \<subseteq> {..< 10 ^ sum_list (map (length \<circ> fst) files)}"
  proof
    fix k
    assume "k \<in> {k. P k \<and> map_of files (renamed dst k) \<noteq> None}"
    then have "map_of files (renamed dst k) \<noteq> None" by simp
    then show "k \<in> {..< 10 ^ sum_list (map (length \<circ> fst) files)}"
      using renamed_exists_bound [of files dst k] by simp
  qed
qed simp

function auto_rename_loop :: "(string \<times> node) list \<Rightarrow> string \<Rightarrow> nat \<Rightarrow> string \<Rightarrow> string" where
  "auto_rename_loop files dst c q =
     (if map_of files q \<noteq> None then auto_rename_loop files dst (c + 1) (renamed dst (c + 1)) else q)"
  by pat_completeness auto
termination
proof (relation "measure (\<lambda>(files, dst, c, q).
          card {k. c < k \<and> map_of files (renamed dst k) \<noteq> None} + (if map_of files q \<noteq> None then 1 else 0))")
  show "wf (measure (\<lambda>(files, dst, c, q).
          card {k. c < k \<and> map_of files (renamed dst k) \<noteq> None} + (if map_of files q \<noteq> None then 1 else 0)))"
    by simp
next
  fix files :: "(string \<times> node) list" and dst :: string and c :: nat and q :: string
  assume q: "map_of files q \<noteq> None"
  let ?E = "\<lambda>k. map_of files (renamed dst k) \<noteq> None"
  have split: "{k. c < k \<and> ?E k} = {k. c + 1 < k \<and> ?E k} \<union> (if ?E (c + 1) then {c + 1} else {})"
  proof -
    have "\<And>k. c < k \<longleftrightarrow> (c + 1 < k \<or> k = c + 1)" by arith
    then have "{k. c < k \<and> ?E k} = {k. c + 1 < k \<and> ?E k} \<union> {k. k = c + 1 \<and> ?E k}"
      by blast
    also have "{k. k = c + 1 \<and> ?E k} = (if ?E (c + 1) then {c + 1} else {})"
      by auto
    finally show ?thesis .
  qed
  have fin: "finite {k. c + 1 < k \<and> ?E k}" by (rule finite_renamed_exists)
  have "card {k. c < k \<and> ?E k} = card {k. c + 1 < k \<and> ?E k} + (if ?E (c + 1) then 1 else 0)"
    unfolding split using fin by (auto simp: card_insert_if)
  with q show "((files, dst, c + 1, renamed dst (c + 1)), (files, dst, c, q)) \<in> measure (\<lambda>(files, dst, c, q).
          card {k. c < k \<and> map_of files (renamed dst k) \<noteq> None} + (if map_of files q \<noteq> None then 1 else 0))"
    by simp
qed

declare auto_rename_loop.simps [simp del]

definition auto_rename :: "string \<Rightarrow> string io" where
  "auto_rename dst w = Some (Inr (auto_rename_loop (fs w) dst 0 dst), w)"

definition last_used_store_path :: "os_env \<Rightarrow> string" where
  "last_used_store_path env = join (cache_dir env) ''remote-file-last-used.txt''"

text \<open>
  Lines 233 to 240: a destination that was typed is expanded, completed with the base
  name when it is a directory, and its directory is written to the marker file; a
  blank answer takes the default.
\<close>

definition choose_dest :: "os_env \<Rightarrow> string \<Rightarrow> string \<Rightarrow> string \<Rightarrow> string io" where
  "choose_dest env rpath last_used_file typed w =
     (if typed \<noteq> [] then
        (let expanded = expandvars env (expanduser env typed);
             dst = (if isdir expanded w then join expanded (basename rpath) else expanded)
         in io_bind (write_file (last_used_store_path env) (dirname (abspath env dst))) (\<lambda>_. ret dst) w)
      else ret last_used_file w)"

text \<open>Lines 260 to 264: the copy itself.\<close>

definition copy_to :: "conn_data \<Rightarrow> string \<Rightarrow> string \<Rightarrow> unit io" where
  "copy_to c rpath dst =
     io_bind (if dirname dst \<noteq> [] then makedirs (dirname dst) else ret ()) (\<lambda>_.
     io_bind (save_output (simple_copy_command c rpath) dst) (\<lambda>ok.
       if \<not> ok then show_error ''Failed to copy file from remote machine'' else ret ()))"

text \<open>
  Lines 213 to 240: the default destination is the base name of the remote file in the
  directory that the marker file names (the temporary directory when there is no marker
  file), then the user is asked. The result is the destination, or \<open>None\<close> when the
  prompt was interrupted.
\<close>

definition save_as_dest :: "os_env \<Rightarrow> string \<Rightarrow> string option io" where
  "save_as_dest env rpath =
     io_bind (makedirs (cache_dir env)) (\<lambda>_.
     io_bind (io_catch (read_file (last_used_store_path env))
                (\<lambda>e. case e of FileNotFoundError p \<Rightarrow> True | _ \<Rightarrow> False) (\<lambda>e. ret (tempdir env))) (\<lambda>last_used_path.
     io_bind (emit (Print [Plain ''Where do you wish to save the file? Leaving it blank will save it as: '',
                           Styled (join last_used_path (basename rpath))])) (\<lambda>_.
     io_bind (emit (Print [Plain ''Relative paths will be resolved from: '', Styled (cwd env)])) (\<lambda>_.
     io_bind (emit (Print [])) (\<lambda>_.
     io_bind (io_catch (io_bind read_line (\<lambda>s. ret (Some s)))
                (\<lambda>e. e = KeyboardInterrupt \<or> e = EOFError) (\<lambda>e. ret None)) (\<lambda>answer.
       case answer of
         None \<Rightarrow> ret None
       | Some typed \<Rightarrow>
           io_bind (choose_dest env rpath (join last_used_path (basename rpath)) typed) (\<lambda>dst.
             ret (Some dst))))))))"

text \<open>
  \<^verbatim>\<open>save_as\<close> calls itself when the user asks for a new name. Each call takes one
  answer from the prompt script, which is why the recursion ends.
\<close>

lemma io_bind_cong [fundef_cong]:
  "m w = m' w' \<Longrightarrow> (\<And>x w1. m' w' = Some (Inr x, w1) \<Longrightarrow> f x w1 = f' x w1) \<Longrightarrow>
   io_bind m f w = io_bind m' f' w'"
  by (auto simp: io_bind_def split: option.splits sum.splits)

lemma io_bind_Some:
  "io_bind m f w = Some (r, w') \<longleftrightarrow>
     (\<exists>e. m w = Some (Inl e, w') \<and> r = Inl e) \<or> (\<exists>x w1. m w = Some (Inr x, w1) \<and> f x w1 = Some (r, w'))"
  by (auto simp: io_bind_def split: option.splits sum.splits)

lemma makedirs_prompts: "makedirs p w = Some (r, w') \<Longrightarrow> prompts w' = prompts w"
  by (auto simp: makedirs_def split: option.splits node.splits)

lemma emit_prompts: "emit e w = Some (r, w') \<Longrightarrow> prompts w' = prompts w"
  by (auto simp: emit_def)

lemma read_marker_prompts:
  "io_catch (read_file p) h (\<lambda>e. ret d) w = Some (r, w') \<Longrightarrow> prompts w' = prompts w"
  by (auto simp: io_catch_def read_file_def ret_def split: option.splits node.splits if_splits)

lemma get_key_press_prompts: "get_key_press a d w = Some (r, w') \<Longrightarrow> prompts w' = prompts w"
  by (auto simp: get_key_press_def split: option.splits)

lemma read_answer_prompts:
  "io_catch (io_bind read_line (\<lambda>s. ret (Some s))) h (\<lambda>e. ret None) w = Some (Inr (Some s), w') \<Longrightarrow>
   length (prompts w') < length (prompts w)"
  by (auto simp: io_catch_def io_bind_def read_line_def ret_def
           split: option.splits list.splits prompt_event.splits if_splits)

lemma choose_dest_prompts: "choose_dest env rpath l typed w = Some (r, w') \<Longrightarrow> prompts w' = prompts w"
  by (auto simp: choose_dest_def io_bind_def ret_def Let_def write_file_def split: if_splits)

lemma save_as_dest_prompts:
  assumes "save_as_dest env rpath w = Some (Inr (Some dst), w')"
  shows "length (prompts w') < length (prompts w)"
  using assms unfolding save_as_dest_def
  by (auto simp: io_bind_Some ret_def split: option.splits
           dest!: makedirs_prompts read_marker_prompts emit_prompts read_answer_prompts choose_dest_prompts)

function save_as :: "os_env \<Rightarrow> conn_data \<Rightarrow> string \<Rightarrow> unit io" where
  "save_as env c rpath w =
     io_bind (save_as_dest env rpath) (\<lambda>answer w1.
       case answer of
         None \<Rightarrow> ret () w1
       | Some dst \<Rightarrow>
           if path_exists dst w1 then
             io_bind (emit ResetTerminal) (\<lambda>_.
             io_bind (emit (Print [Plain ''The file '', Styled dst,
                                   Plain '' already exists. What would you like to do?''])) (\<lambda>_.
             io_bind (emit (Print [Styled ''O'', Plain ''verwrite  '', Styled ''A'', Plain ''bort  Auto '',
                                   Styled ''R'', Plain ''ename '', Styled ''N'', Plain ''ew name''])) (\<lambda>_.
             io_bind (get_key_press ''anor'' ''a'') (\<lambda>response w2.
               if response = ''a'' then ret () w2
               else if response = ''n'' then
                 io_bind (emit ResetTerminal) (\<lambda>_ w3. save_as env c rpath w3) w2
               else
                 io_bind (if response = ''r'' then auto_rename dst else ret dst) (\<lambda>dst'.
                   copy_to c rpath dst') w2)))) w1
           else copy_to c rpath dst w1) w"
  by pat_completeness auto
termination
  apply (relation "measure (\<lambda>(env, c, rpath, w). length (prompts w))")
   apply simp
  apply (auto dest!: save_as_dest_prompts emit_prompts get_key_press_prompts)
  done

declare save_as.simps [simp del]

subsection \<open>Dispatch\<close>

definition handle_action :: "os_env \<Rightarrow> string \<Rightarrow> opts \<Rightarrow> string option io" where
  "handle_action env action cli_opts =
     io_bind (SSHConnectionData (ssh_connection_data cli_opts)) (\<lambda>c.
       let rpath = or_else (opt_path cli_opts) []
       in if action = ''open'' then
            io_bind (emit (Print [Plain (''Opening '' @ str_opt (opt_path cli_opts) @ '' from '' @
                                         str_opt (opt_hostname cli_opts))])) (\<lambda>_.
            io_bind (mkdtemp env) (\<lambda>d.
            let dst = join d (basename rpath)
            in io_bind (save_output (simple_copy_command c rpath) dst) (\<lambda>ok.
                 if ok then ret (Some dst)
                 else io_bind (show_error ''Failed to copy file from remote machine'') (\<lambda>_. ret None))))
          else if action = ''edit'' then
            io_bind (emit (Print [Plain (''Editing '' @ str_opt (opt_path cli_opts) @ '' from '' @
                                         str_opt (opt_hostname cli_opts))])) (\<lambda>_.
            with_ControlMaster env c rpath (edit_body env))
          else if action = ''save'' then
            io_bind (emit (Print [Plain (''Saving '' @ str_opt (opt_path cli_opts) @ '' from '' @
                                         str_opt (opt_hostname cli_opts))])) (\<lambda>_.
            io_bind (save_as env c rpath) (\<lambda>_. ret None))
          else ret None)"

text \<open>
  \<^verbatim>\<open>main\<close>, given what \<^verbatim>\<open>parse_args\<close> (outside this source tree) made of the
  arguments: the options, or the code and message of its \<^verbatim>\<open>SystemExit\<close>.
\<close>

definition main :: "os_env \<Rightarrow> (int \<times> string) + opts \<Rightarrow> string option io" where
  "main env parsed =
     (case parsed of
        Inl (code, msg) \<Rightarrow>
          io_bind (if code \<noteq> 0 then
                     io_bind (emit (Print [Plain msg])) (\<lambda>_.
                     io_bind (emit (Print [Plain ''Press enter to quit...''])) (\<lambda>_.
                     io_bind read_line (\<lambda>_. ret ())))
                   else ret ()) (\<lambda>_.
            raise (SystemExit code))
      | Inr cli_opts \<Rightarrow>
          io_bind (emit (CursorVisible False)) (\<lambda>_.
          io_bind (io_finally (ask_action cli_opts) (emit ResetTerminal)) (\<lambda>action.
          io_catch (handle_action env action cli_opts) is_Exception (\<lambda>e.
            io_bind (emit ResetTerminal) (\<lambda>_.
            io_bind (emit (Traceback e)) (\<lambda>_.
            io_bind (show_error ''Failed with unhandled exception'') (\<lambda>_.
              ret None)))))))"

section \<open>Basic facts\<close>

text \<open>\<^verbatim>\<open>os.path.isfile\<close>, used to state what a world must look like.\<close>

definition isfile :: "string \<Rightarrow> world \<Rightarrow> bool" where
  "isfile p w = (case lookup p w of Some (File s t) \<Rightarrow> True | _ \<Rightarrow> False)"

text \<open>What \<^verbatim>\<open>show_error\<close> prints.\<close>

definition error_screen :: "string \<Rightarrow> event list" where
  "error_screen msg = [Print [Styled msg], Print [], Print [Plain ''Press any key to exit...'']]"

lemma lookup_frame [simp]:
  "lookup p (w\<lparr>trace := a\<rparr>) = lookup p w"
  "lookup p (w\<lparr>keys := b\<rparr>) = lookup p w"
  "lookup p (w\<lparr>prompts := c\<rparr>) = lookup p w"
  "lookup p (w\<lparr>procs := d\<rparr>) = lookup p w"
  "lookup p (w\<lparr>tmpnames := e\<rparr>) = lookup p w"
  "lookup p (w\<lparr>editor_run := f\<rparr>) = lookup p w"
  "lookup p (w\<lparr>fs := g\<rparr>) = map_of g p"
  by (simp_all add: lookup_def)

lemmas io_defs = io_bind_def ret_def raise_def emit_def io_catch_def io_finally_def

lemma io_bind_emit [simp]: "io_bind (emit e) f w = f () (w\<lparr>trace := trace w @ [e]\<rparr>)"
  by (simp add: io_bind_def emit_def)

lemma io_bind_ret [simp]: "io_bind (ret x) f w = f x w"
  by (simp add: io_bind_def ret_def)

lemma splitext_append: "splitext p = (b, ext) \<Longrightarrow> b @ ext = p"
  by (auto simp: splitext_def Let_def split: if_splits)



section \<open>Sample data\<close>

text \<open>
  A host \<open>box\<close> reached through \<open>ssh\<close>, the remote file \<open>/etc/hosts\<close>, and a world
  with an empty temporary directory, used where a statement is run on a concrete input.
\<close>

definition sample_env :: os_env where
  "sample_env = \<lparr>pid = 42, cwd = ''/home/u'', tempdir = ''/tmp'', cache_dir = ''/home/u/.cache/kitty'',
                  editor = [''vim''], expanduser = (\<lambda>p. p), expandvars = (\<lambda>p. p),
                  abspath = (\<lambda>p. if take 1 p = ''/'' then p else ''/home/u/'' @ p)\<rparr>"

definition box :: conn_data where
  "box = \<lparr>binary = ''ssh'', hostname = ''box'', port = None\<rparr>"

definition sample_opts :: opts where
  "sample_opts = \<lparr>opt_mode = ''ask'', opt_path = Some ''/etc/hosts'', opt_hostname = Some ''box'',
                   ssh_connection_data = Serialized box\<rparr>"

definition sample_world :: world where
  "sample_world = \<lparr>fs = [(''/tmp'', Dir 0)], trace = [], keys = [], prompts = [], procs = [],
                    tmpnames = [''abc''], editor_run = None, now = 5\<rparr>"

text \<open>The session on \<open>box\<close> after \<^verbatim>\<open>__enter__\<close>, and a world with the staged file.\<close>

definition sample_master :: master where
  "sample_master =
     (ControlMaster_init sample_env box ''/etc/hosts'')\<lparr>tdir := ''/tmp/tmpabc'', dest := ''/tmp/tmpabc/hosts''\<rparr>"

definition staged_world :: world where
  "staged_world =
     sample_world\<lparr>fs := [(''/tmp'', Dir 0), (''/tmp/tmpabc'', Dir 5), (''/tmp/tmpabc/hosts'', File ''data'' 5)],
                  tmpnames := []\<rparr>"

text \<open>A working directory where \<open>a.txt\<close> and \<open>a-0.txt\<close> exist.\<close>

definition crowded_world :: world where
  "crowded_world = sample_world\<lparr>fs := [(''a.txt'', File ''old'' 1), (''a-0.txt'', File ''older'' 0)]\<rparr>"

text \<open>A session whose liveness goes from alive to dead while the file is edited.\<close>

definition toggling_world :: world where
  "toggling_world =
     sample_world\<lparr>procs := [Proc 0 [], Proc 0 [], Proc 0 ''data'', Proc 0 [], Proc 0 [], Proc 255 [], Proc 255 [], Proc 0 []],
                  editor_run := Some [Idle, Save ''one'' 7, Save ''two'' 8, Exit],
                  keys := [Byte CHR ''q'']\<rparr>"


text \<open>The editor cannot be started: an exception inside the \<^verbatim>\<open>with\<close> statement.\<close>

definition no_editor_world :: world where
  "no_editor_world = sample_world\<lparr>procs := [Proc 0 [], Proc 0 [], Proc 0 ''data'', Proc 0 []]\<rparr>"

section \<open>The one-shot copy command\<close>

text \<open>
  The claim C5 says that a descriptor with a port set gives a command with the pair
  \<open>-p <port>\<close> right after the binary. The test \<^verbatim>\<open>if conn_data.port:\<close> is false for the
  port \<open>0\<close>, so that descriptor gets no \<open>-p\<close>.
\<close>

theorem simple_copy_command_port_zero:
  "simple_copy_command \<lparr>binary = ''ssh'', hostname = ''box'', port = Some 0\<rparr> ''/etc/hosts'' =
     [''ssh'', ''box'', ''cat'', ''/etc/hosts'']"
  by (simp add: simple_copy_command_def port_args_def)

text \<open>
  C5, amended: without a port, and with the port \<open>0\<close>, the command is the binary, the
  host name, \<open>cat\<close> and the remote path; with any other port the pair \<open>-p\<close>,
  \<open>str(port)\<close> stands between the binary and the host name. So the command holds one
  \<open>-p\<close> of its own making in the second case and none in the first.
\<close>

theorem simple_copy_command_spec:
  "simple_copy_command c path =
     (case port c of
        None \<Rightarrow> [binary c, hostname c, ''cat'', path]
      | Some n \<Rightarrow>
          if n = 0 then [binary c, hostname c, ''cat'', path]
          else [binary c, ''-p'', str_int n, hostname c, ''cat'', path])"
  by (simp add: simple_copy_command_def port_args_def split: option.splits)

theorem simple_copy_command_witness:
  "simple_copy_command \<lparr>binary = ''ssh'', hostname = ''box'', port = Some 2222\<rparr> ''/etc/hosts'' =
     [''ssh'', ''-p'', ''2222'', ''box'', ''cat'', ''/etc/hosts'']"
  using simple_copy_command_spec [of "\<lparr>binary = ''ssh'', hostname = ''box'', port = Some 2222\<rparr>" "''/etc/hosts''"]
  by (simp add: str_int_def str_nat.simps digit_char_def)

section \<open>The cancel action\<close>




section \<open>The key reader\<close>

text \<open>
  The claim C10 says that \<^verbatim>\<open>get_key_press\<close> returns the default or an allowed
  character. The loop stores every decoded key in \<open>response\<close> before it tests it, so
  a key that is not allowed, followed by escape, is what the function returns: here
  \<open>x\<close> at the conflict menu of \<^verbatim>\<open>save_as\<close>, which is neither the default \<open>a\<close> nor
  one of \<open>anor\<close>.
\<close>

theorem get_key_press_returns_other_key:
  "get_key_press ''anor'' ''a'' (sample_world\<lparr>keys := [Byte CHR ''x'', Byte (CHR 0x1B)]\<rparr>) =
     Some (Inr ''x'', sample_world\<lparr>keys := []\<rparr>) \<and> ''x'' \<noteq> ''a'' \<and> CHR ''x'' \<notin> set ''anor''"
  by (simp add: get_key_press_def sample_world_def is_ascii_def lower_def)

section \<open>Uploads\<close>

text \<open>
  The claim C8 says that every upload command is the control prefix without the
  \<open>BatchMode\<close> option. \<^verbatim>\<open>upload\<close> takes \<open>cmd_prefix\<close> when the output is
  suppressed and \<open>batch_cmd_prefix\<close> when it is not, so the final, visible upload
  runs with \<open>-o BatchMode=yes\<close>.
\<close>

theorem final_upload_uses_batch_mode:
  "map_option (last \<circ> trace \<circ> snd) (upload sample_master False (staged_world\<lparr>procs := [Proc 0 []]\<rparr>)) =
     Some (Run [''ssh'', ''-o'', ''ControlPath=~/.ssh/kitty-master-42-%r@%h:%p'', ''-o'', ''TCPKeepAlive=yes'',
                ''-o'', ''ControlPersist=yes'', ''-o'', ''BatchMode=yes'', ''box'', ''cat'', ''>'', ''/etc/hosts'']
               (OnFile ''/tmp/tmpabc/hosts'') Inherit Inherit 0)"
  by (simp add: upload_def upload_cmd_def sample_master_def ControlMaster_init_def staged_world_def sample_world_def
        sample_env_def box_def port_args_def io_defs read_file_def lookup_def run_def Let_def
        str_nat.simps digit_char_def)

text \<open>
  C8, amended: an upload runs one command with the staged file as standard input: the
  control prefix, then the host name and \<open>cat > remote_path\<close>. With the output
  suppressed the prefix has no \<open>BatchMode\<close> option and standard output and error are
  discarded; otherwise the prefix ends with \<open>-o BatchMode=yes\<close>, the quoted command
  line is printed before the command runs, and the command's output is shown. The
  result is whether the command exited with status zero.
\<close>

theorem upload_command:
  assumes "m = (ControlMaster_init env c rpath)\<lparr>tdir := d, dest := f\<rparr>"
      and "lookup f w = Some (File s t)"
      and "procs w = p # ps"
  shows "upload m suppress_output w =
     (let prefix = [binary c, ''-o'', ''ControlPath=~/.ssh/kitty-master-'' @ str_nat (pid env) @ ''-%r@%h:%p'',
                    ''-o'', ''TCPKeepAlive=yes'', ''-o'', ''ControlPersist=yes''] @ port_args c;
          plain = prefix @ [hostname c, ''cat'', ''>'', rpath];
          batch = prefix @ [''-o'', ''BatchMode=yes'', hostname c, ''cat'', ''>'', rpath]
      in Some (Inr (status p = 0),
               w\<lparr>procs := ps,
                  trace := trace w @
                    (if suppress_output then [Run plain (OnFile f) DevNull DevNull (status p)]
                     else [Print [Plain (join_with '' '' (map quote batch))],
                           Run batch (OnFile f) Inherit Inherit (status p)])\<rparr>))"
  using assms
  by (simp add: upload_def upload_cmd_def ControlMaster_init_def io_defs read_file_def run_def Let_def)

theorem upload_command_witness:
  "upload sample_master True (staged_world\<lparr>procs := [Proc 1 []]\<rparr>) =
     Some (Inr False,
           staged_world\<lparr>procs := [],
             trace := [Run [''ssh'', ''-o'', ''ControlPath=~/.ssh/kitty-master-42-%r@%h:%p'', ''-o'', ''TCPKeepAlive=yes'',
                            ''-o'', ''ControlPersist=yes'', ''box'', ''cat'', ''>'', ''/etc/hosts'']
                           (OnFile ''/tmp/tmpabc/hosts'') DevNull DevNull 1]\<rparr>)"
  using upload_command [where m = sample_master and env = sample_env and c = box and rpath = "''/etc/hosts''"
          and d = "''/tmp/tmpabc''" and f = "''/tmp/tmpabc/hosts''" and w = "staged_world\<lparr>procs := [Proc 1 []]\<rparr>"
          and s = "''data''" and t = 5 and p = "Proc 1 []" and ps = "[]" and suppress_output = True]
  by (simp add: sample_master_def staged_world_def sample_world_def lookup_def sample_env_def box_def port_args_def
        str_nat.simps digit_char_def)

section \<open>Auto rename\<close>

lemma auto_rename_loop_spec:
  assumes "q = (if c = 0 then dst else renamed dst c)"
      and "\<forall>k. 1 \<le> k \<and> k < c \<longrightarrow> map_of files (renamed dst k) \<noteq> None"
      and "c = 0 \<longrightarrow> map_of files dst \<noteq> None"
  shows "\<exists>n. 1 \<le> n \<and> auto_rename_loop files dst c q = renamed dst n \<and>
             map_of files (renamed dst n) = None \<and>
             (\<forall>k. 1 \<le> k \<and> k < n \<longrightarrow> map_of files (renamed dst k) \<noteq> None)"
  using assms
proof (induction files dst c q rule: auto_rename_loop.induct)
  case (1 files dst c q)
  show ?case
  proof (cases "map_of files q \<noteq> None")
    case True
    have earlier: "\<forall>k. 1 \<le> k \<and> k < c + 1 \<longrightarrow> map_of files (renamed dst k) \<noteq> None"
    proof (intro allI impI)
      fix k assume k: "1 \<le> k \<and> k < c + 1"
      show "map_of files (renamed dst k) \<noteq> None"
      proof (cases "k < c")
        case True
        with k "1.prems"(2) show ?thesis by blast
      next
        case False
        with k have "k = c" and "c \<noteq> 0" by auto
        with "1.prems"(1) \<open>map_of files q \<noteq> None\<close> show ?thesis by simp
      qed
    qed
    have "\<exists>n. 1 \<le> n \<and> auto_rename_loop files dst (c + 1) (renamed dst (c + 1)) = renamed dst n \<and>
             map_of files (renamed dst n) = None \<and>
             (\<forall>k. 1 \<le> k \<and> k < n \<longrightarrow> map_of files (renamed dst k) \<noteq> None)"
      by (rule "1.IH" [OF True]) (use earlier in simp_all)
    with True show ?thesis
      by (subst auto_rename_loop.simps) simp
  next
    case False
    with "1.prems"(1,3) have c: "c \<noteq> 0" and q: "q = renamed dst c" by (auto split: if_splits)
    from False have "auto_rename_loop files dst c q = q"
      by (subst auto_rename_loop.simps) simp
    with False c q "1.prems"(2) show ?thesis
      by (intro exI [of _ c]) auto
  qed
qed

text \<open>
  C6: when the destination exists, auto rename returns \<open>renamed dst c\<close>, the
  destination with \<open>-c\<close> before its extension, for the least \<open>c \<ge> 1\<close> whose name
  does not exist: the name returned does not exist, and every name with a smaller
  positive number does. The loop always ends.
\<close>

theorem auto_rename_smallest_free:
  assumes "path_exists dst w"
  shows "\<exists>c. 1 \<le> c \<and> auto_rename dst w = Some (Inr (renamed dst c), w) \<and>
             \<not> path_exists (renamed dst c) w \<and>
             (\<forall>k. 1 \<le> k \<and> k < c \<longrightarrow> path_exists (renamed dst k) w)"
proof -
  from assms have "map_of (fs w) dst \<noteq> None"
    by (simp add: path_exists_def lookup_def)
  then have "\<exists>n. 1 \<le> n \<and> auto_rename_loop (fs w) dst 0 dst = renamed dst n \<and>
             map_of (fs w) (renamed dst n) = None \<and>
             (\<forall>k. 1 \<le> k \<and> k < n \<longrightarrow> map_of (fs w) (renamed dst k) \<noteq> None)"
    by (intro auto_rename_loop_spec) simp_all
  then show ?thesis
    by (simp add: auto_rename_def path_exists_def lookup_def)
qed

theorem auto_rename_smallest_free_witness:
  "path_exists ''a.txt'' crowded_world \<and>
   (\<exists>c. 1 \<le> c \<and> auto_rename ''a.txt'' crowded_world = Some (Inr (renamed ''a.txt'' c), crowded_world) \<and>
        \<not> path_exists (renamed ''a.txt'' c) crowded_world \<and>
        (\<forall>k. 1 \<le> k \<and> k < c \<longrightarrow> path_exists (renamed ''a.txt'' k) crowded_world))"
proof -
  have e: "path_exists ''a.txt'' crowded_world"
    by (simp add: path_exists_def lookup_def crowded_world_def sample_world_def)
  from e auto_rename_smallest_free [OF e] show ?thesis by simp
qed

text \<open>With \<open>a.txt\<close> and \<open>a-0.txt\<close> present the name chosen is \<open>a-1.txt\<close>.\<close>

lemma auto_rename_first_is_1:
  "auto_rename ''a.txt'' crowded_world = Some (Inr ''a-1.txt'', crowded_world)"
  by (simp add: auto_rename_def crowded_world_def sample_world_def auto_rename_loop.simps renamed_def
        splitext_def str_nat.simps digit_char_def)

section \<open>The marker file of the save flow\<close>








section \<open>How each step changes the world\<close>

text \<open>
  Names for the commands of a session, and for what an upload prints and where its
  output goes, so that the statements below can speak of them.
\<close>

lemma map_of_filter_under:
  "map_of (filter (\<lambda>(p, n). \<not> under_dir d p) xs) q = (if under_dir d q then None else map_of xs q)"
  by (induction xs) auto

lemma io_bindE:
  assumes "io_bind m f w = Some (r, w')"
  obtains (raised) e where "m w = Some (Inl e, w')" and "r = Inl e"
        | (went_on) x w1 where "m w = Some (Inr x, w1)" and "f x w1 = Some (r, w')"
  using assms by (auto simp: io_bind_def split: option.splits sum.splits)

lemma isdir_frame [simp]:
  "isdir p (w\<lparr>trace := a\<rparr>) = isdir p w"
  "isdir p (w\<lparr>keys := b\<rparr>) = isdir p w"
  "isdir p (w\<lparr>prompts := c\<rparr>) = isdir p w"
  "isdir p (w\<lparr>procs := d\<rparr>) = isdir p w"
  "isdir p (w\<lparr>tmpnames := e\<rparr>) = isdir p w"
  "isdir p (w\<lparr>editor_run := f\<rparr>) = isdir p w"
  by (simp_all add: isdir_def)

lemma isfile_frame [simp]:
  "isfile p (w\<lparr>trace := a\<rparr>) = isfile p w"
  "isfile p (w\<lparr>keys := b\<rparr>) = isfile p w"
  "isfile p (w\<lparr>prompts := c\<rparr>) = isfile p w"
  "isfile p (w\<lparr>procs := d\<rparr>) = isfile p w"
  "isfile p (w\<lparr>tmpnames := e\<rparr>) = isfile p w"
  "isfile p (w\<lparr>editor_run := f\<rparr>) = isfile p w"
  by (simp_all add: isfile_def)

lemma path_exists_frame [simp]:
  "path_exists p (w\<lparr>trace := a\<rparr>) = path_exists p w"
  "path_exists p (w\<lparr>keys := b\<rparr>) = path_exists p w"
  "path_exists p (w\<lparr>prompts := c\<rparr>) = path_exists p w"
  "path_exists p (w\<lparr>procs := d\<rparr>) = path_exists p w"
  "path_exists p (w\<lparr>tmpnames := e\<rparr>) = path_exists p w"
  "path_exists p (w\<lparr>editor_run := f\<rparr>) = path_exists p w"
  by (simp_all add: path_exists_def)

lemma isdir_fs: "fs w' = fs w \<Longrightarrow> isdir d w' = isdir d w"
  by (simp add: isdir_def lookup_def)

lemma isfile_fs: "fs w' = fs w \<Longrightarrow> isfile d w' = isfile d w"
  by (simp add: isfile_def lookup_def)

lemma isdir_update_File:
  "fs w' = AList.update p (File s t) (fs w) \<Longrightarrow> isdir d w' = (d \<noteq> p \<and> isdir d w)"
  by (simp add: isdir_def lookup_def update_conv')

lemma isfile_update_File:
  "fs w' = AList.update p (File s t) (fs w) \<Longrightarrow> isfile q w' = (q = p \<or> isfile q w)"
  by (simp add: isfile_def lookup_def update_conv')

lemma isdir_not_isfile: "isdir p w \<Longrightarrow> \<not> isfile p w"
  by (auto simp: isdir_def isfile_def split: option.splits node.splits)

lemma run_cases:
  assumes "run argv sin sout serr w = Some (r, w')"
  obtains p ps where "procs w = p # ps" and "r = Inr (status p)" and "procs w' = ps"
    and "trace w' = trace w @ [Run argv sin sout serr (status p)]"
    and "keys w' = keys w" and "now w' = now w"
    and "fs w' = (case sout of OnFile f \<Rightarrow> AList.update f (File (out p) (now w)) (fs w) | _ \<Rightarrow> fs w)"
  using assms by (cases "procs w"; cases sout) (auto simp: run_def)

lemma run_fs:
  assumes "run argv sin sout serr w = Some (r, w')" and "\<And>f. sout \<noteq> OnFile f"
  shows "fs w' = fs w"
  using assms(1)
proof (cases rule: run_cases)
  case (1 p ps)
  with assms(2) show ?thesis by (cases sout) auto
qed

lemma write_file_cases:
  assumes "write_file p s w = Some (r, w')"
  obtains (isdir) "isdir p w" and "r = Inl (IsADirectoryError p)" and "w' = w"
        | (written) "\<not> isdir p w" and "r = Inr ()" and "w' = w\<lparr>fs := AList.update p (File s (now w)) (fs w)\<rparr>"
  using assms by (auto simp: write_file_def split: if_splits)

definition check_cmd :: "master \<Rightarrow> string list" where
  "check_cmd m = batch_cmd_prefix m @ [''-O'', ''check'', hostname (conn_data m)]"

definition echo :: "master \<Rightarrow> bool \<Rightarrow> event list" where
  "echo m suppress_output =
     (if suppress_output then [] else [Print [Plain (join_with '' '' (map quote (upload_cmd m False)))]])"

definition redirect :: "bool \<Rightarrow> stream" where
  "redirect suppress_output = (if suppress_output then DevNull else Inherit)"

lemma show_error_cases:
  assumes "show_error msg w = Some (r, w')"
  obtains ks where "wait_key (keys w) = Some ks" and "r = Inr ()"
    and "w' = w\<lparr>trace := trace w @ error_screen msg, keys := ks\<rparr>"
  using assms by (auto simp: show_error_def error_screen_def split: option.splits)

lemma is_alive_cases:
  assumes "is_alive m w = Some (r, w')"
  obtains p ps where "procs w = p # ps" and "r = Inr (status p = 0)"
    and "w' = w\<lparr>procs := ps, trace := trace w @ [Run (check_cmd m) DevNull DevNull DevNull (status p)]\<rparr>"
  using assms
  by (cases "procs w") (auto simp: is_alive_def check_cmd_def io_bind_def run_def ret_def)

lemma upload_cases:
  assumes "upload m s w = Some (r, w')"
  obtains (unreadable) e where "\<not> isfile (dest m) w" and "r = Inl e"
      and "w' = w\<lparr>trace := trace w @ echo m s\<rparr>"
    | (ran) p ps where "isfile (dest m) w" and "procs w = p # ps" and "r = Inr (status p = 0)"
      and "w' = w\<lparr>procs := ps,
                   trace := trace w @ echo m s @
                     [Run (upload_cmd m s) (OnFile (dest m)) (redirect s) (redirect s) (status p)]\<rparr>"
proof (cases "lookup (dest m) w")
  case None
  with assms have "r = Inl (FileNotFoundError (dest m)) \<and> w' = w\<lparr>trace := trace w @ echo m s\<rparr>"
    by (cases s) (auto simp: upload_def Let_def io_bind_def read_file_def echo_def emit_def ret_def)
  then show ?thesis
    by (intro unreadable [of "FileNotFoundError (dest m)"]) (use None in \<open>simp_all add: isfile_def\<close>)
next
  case (Some n)
  show ?thesis
  proof (cases n)
    case (Dir t)
    with Some assms have "r = Inl (IsADirectoryError (dest m)) \<and> w' = w\<lparr>trace := trace w @ echo m s\<rparr>"
      by (cases s) (auto simp: upload_def Let_def io_bind_def read_file_def echo_def emit_def ret_def)
    then show ?thesis
      by (intro unreadable [of "IsADirectoryError (dest m)"]) (use Some Dir in \<open>simp_all add: isfile_def\<close>)
  next
    case (File c t)
    with Some have f: "isfile (dest m) w" by (simp add: isfile_def)
    show ?thesis
    proof (cases "procs w")
      case Nil
      with Some File assms show ?thesis
        by (cases s) (auto simp: upload_def Let_def io_bind_def read_file_def emit_def ret_def run_def)
    next
      case (Cons p ps)
      with Some File assms have
        "r = Inr (status p = 0) \<and>
         w' = w\<lparr>procs := ps,
                   trace := trace w @ echo m s @
                     [Run (upload_cmd m s) (OnFile (dest m)) (redirect s) (redirect s) (status p)]\<rparr>"
        by (cases s) (auto simp: upload_def Let_def io_bind_def read_file_def echo_def emit_def ret_def
                            run_def redirect_def)
      then show ?thesis
        by (intro ran [OF f Cons]) simp_all
    qed
  qed
qed

lemma download_cases:
  assumes "download m w = Some (r, w')"
  obtains (isdir) "isdir (dest m) w" and "r = Inl (IsADirectoryError (dest m))" and "w' = w"
    | (ran) p ps where "\<not> isdir (dest m) w" and "procs w = p # ps" and "r = Inr (status p = 0)"
      and "w' = w\<lparr>procs := ps,
                   trace := trace w @
                     [Run (batch_cmd_prefix m @ [hostname (conn_data m), ''cat'', remote_path m])
                        DevNull (OnFile (dest m)) DevNull (status p)],
                   fs := AList.update (dest m) (File (out p) (now w)) (fs w)\<rparr>"
proof (cases "isdir (dest m) w")
  case True
  with assms have "r = Inl (IsADirectoryError (dest m)) \<and> w' = w"
    by (auto simp: download_def io_bind_def write_file_def)
  then show ?thesis
    by (intro isdir [OF True]) simp_all
next
  case False
  show ?thesis
  proof (cases "procs w")
    case Nil
    with False assms show ?thesis
      by (auto simp: download_def io_bind_def write_file_def run_def)
  next
    case (Cons p ps)
    with False assms have "r = Inr (status p = 0) \<and>
         w' = w\<lparr>procs := ps,
                   trace := trace w @
                     [Run (batch_cmd_prefix m @ [hostname (conn_data m), ''cat'', remote_path m])
                        DevNull (OnFile (dest m)) DevNull (status p)],
                   fs := AList.update (dest m) (File (out p) (now w)) (fs w)\<rparr>"
      by (auto simp: download_def io_bind_def write_file_def run_def ret_def)
    then show ?thesis
      by (intro ran [OF False Cons]) simp_all
  qed
qed

lemma getmtime_cases:
  assumes "getmtime p w = Some (r, w')"
  obtains (missing) "lookup p w = None" and "r = Inl (FileNotFoundError p)" and "w' = w"
    | (found) n where "lookup p w = Some n" and "r = Inr (node_mtime n)" and "w' = w"
  using assms by (auto simp: getmtime_def split: option.splits)

lemma Popen_editor_cases:
  assumes "Popen_editor env p w = Some (r, w')"
  obtains (missing) e where "editor_run w = None" and "r = Inl e" and "w' = w"
    | (started) ts where "editor_run w = Some ts" and "r = Inr ts"
      and "w' = w\<lparr>trace := trace w @ [Launch (editor env @ [p])]\<rparr>"
  using assms by (auto simp: Popen_editor_def split: option.splits)

lemma editor_acts_cases:
  assumes "editor_acts t p w = Some (r, w')"
  obtains (saved) s time where "t = Save s time" and "r = Inr ()"
      and "w' = w\<lparr>fs := AList.update p (File s time) (fs w)\<rparr>"
    | (quiet) "r = Inr ()" and "w' = w"
  using assms by (cases t) (auto simp: editor_acts_def)


definition enter_cmd :: "master \<Rightarrow> string list" where
  "enter_cmd m = cmd_prefix m @ [''-o'', ''ControlMaster=auto'', ''-fN'', hostname (conn_data m)]"

definition exit_cmd :: "master \<Rightarrow> string list" where
  "exit_cmd m = batch_cmd_prefix m @ [''-O'', ''exit'', hostname (conn_data m)]"

definition download_cmd :: "master \<Rightarrow> string list" where
  "download_cmd m = batch_cmd_prefix m @ [hostname (conn_data m), ''cat'', remote_path m]"

definition died_msg :: "master \<Rightarrow> string" where
  "died_msg m = ''Failed to upload '' @ remote_path m @ '', SSH master process died''"

inductive loop_events :: "master \<Rightarrow> event list \<Rightarrow> bool" for m where
  quiet: "loop_events m []"
| dead: "st \<noteq> 0 \<Longrightarrow> loop_events m es \<Longrightarrow>
         loop_events m (Run (check_cmd m) DevNull DevNull DevNull st # es)"
| alive: "loop_events m es \<Longrightarrow>
         loop_events m (Run (check_cmd m) DevNull DevNull DevNull 0 #
                        Run (upload_cmd m True) (OnFile (dest m)) DevNull DevNull st # es)"

definition final_events :: "master \<Rightarrow> event list \<Rightarrow> bool" where
  "final_events m es \<longleftrightarrow>
     (\<exists>st. st \<noteq> 0 \<and>
        es = [ResetTerminal, Run (check_cmd m) DevNull DevNull DevNull st] @ error_screen (died_msg m)) \<or>
     (\<exists>st. es = [ResetTerminal, Run (check_cmd m) DevNull DevNull DevNull 0] @ echo m False @
                 [Run (upload_cmd m False) (OnFile (dest m)) Inherit Inherit st] @
                 (if st = 0 then [] else error_screen (''Failed to upload '' @ remote_path m)))"

lemma edit_loop_Cons:
  "t \<noteq> Exit \<Longrightarrow>
   edit_loop m (t # ts) mt w =
     io_bind (editor_acts t (dest m)) (\<lambda>_.
     io_bind (getmtime (dest m)) (\<lambda>newmtime.
       if mt < newmtime then
         io_bind (is_alive m) (\<lambda>alive.
           if alive then io_bind (upload m True) (\<lambda>_ w'. edit_loop m ts newmtime w')
           else (\<lambda>w'. edit_loop m ts newmtime w'))
       else (\<lambda>w'. edit_loop m ts mt w'))) w"
  by (cases t) simp_all

lemma edit_loop_shape:
  assumes "edit_loop m ts mt w = Some (r, w')" and "isfile (dest m) w"
  shows "r = Inr () \<and> isfile (dest m) w' \<and> (\<forall>d. isdir d w \<longrightarrow> isdir d w') \<and>
         (\<exists>new. trace w' = trace w @ new \<and> loop_events m new)"
  using assms
proof (induction ts arbitrary: mt w)
  case Nil
  then show ?case by simp
next
  case (Cons t ts)
  show ?case
  proof (cases "t = Exit")
    case True
    with Cons.prems show ?thesis by (auto intro: loop_events.quiet)
  next
    case False
    note run = Cons.prems(1) [unfolded edit_loop_Cons [OF False]]
    from run show ?thesis
    proof (cases rule: io_bindE)
      case (raised e)
      then show ?thesis by (auto elim: editor_acts_cases)
    next
      case (went_on x w1)
      from went_on(1) Cons.prems(2)
      have f1: "isfile (dest m) w1" and d1: "\<And>d. isdir d w \<Longrightarrow> isdir d w1" and t1: "trace w1 = trace w"
        by (auto elim!: editor_acts_cases simp: isfile_def isdir_def update_conv' lookup_def
                 split: option.splits node.splits if_splits)
      from went_on(2) show ?thesis
      proof (cases rule: io_bindE)
        case (raised e)
        with f1 show ?thesis by (auto elim!: getmtime_cases simp: isfile_def)
      next
        case (went_on newmtime w2)
        from went_on(1) have w2: "w2 = w1" by (auto elim: getmtime_cases)
        show ?thesis
        proof (cases "mt < newmtime")
          case False
          with went_on(2) w2 have "edit_loop m ts mt w1 = Some (r, w')" by simp
          from Cons.IH [OF this f1] d1 t1 show ?thesis by auto
        next
          case True
          with went_on(2) w2 have
            "io_bind (is_alive m) (\<lambda>alive.
               if alive then io_bind (upload m True) (\<lambda>_ w'. edit_loop m ts newmtime w')
               else (\<lambda>w'. edit_loop m ts newmtime w')) w1 = Some (r, w')" by simp
          then show ?thesis
          proof (cases rule: io_bindE)
            case (raised e)
            then show ?thesis by (auto elim: is_alive_cases)
          next
            case (went_on alive w3)
            from went_on(1) obtain p ps where p: "procs w1 = p # ps" and al: "alive = (status p = 0)"
              and w3: "w3 = w1\<lparr>procs := ps, trace := trace w1 @ [Run (check_cmd m) DevNull DevNull DevNull (status p)]\<rparr>"
              by (auto elim: is_alive_cases)
            from w3 f1 have f3: "isfile (dest m) w3" by (simp add: isfile_def)
            from w3 have fs3: "fs w3 = fs w1" by simp
            show ?thesis
            proof (cases alive)
              case False
              with went_on(2) have "edit_loop m ts newmtime w3 = Some (r, w')" by simp
              from Cons.IH [OF this f3] obtain new where
                "r = Inr ()" "isfile (dest m) w'" "\<forall>d. isdir d w3 \<longrightarrow> isdir d w'"
                "trace w' = trace w3 @ new" "loop_events m new" by auto
              with d1 t1 w3 False al show ?thesis
                by (auto simp: isdir_fs [OF fs3] intro!: loop_events.dead)
            next
              case True
              with went_on(2) have "io_bind (upload m True) (\<lambda>_ w'. edit_loop m ts newmtime w') w3 = Some (r, w')"
                by simp
              then show ?thesis
              proof (cases rule: io_bindE)
                case (raised e)
                from raised(1) f3 show ?thesis by (cases rule: upload_cases) simp_all
              next
                case (went_on ok w4)
                have "\<exists>u us. w4 = w3\<lparr>procs := us, trace := trace w3 @ echo m True @
                         [Run (upload_cmd m True) (OnFile (dest m)) (redirect True) (redirect True) (status u)]\<rparr>"
                  using went_on(1)
                proof (cases rule: upload_cases)
                  case (unreadable e)
                  with f3 show ?thesis by simp
                next
                  case (ran u us)
                  then show ?thesis by blast
                qed
                then obtain u us where
                  w4: "w4 = w3\<lparr>procs := us, trace := trace w3 @ echo m True @
                         [Run (upload_cmd m True) (OnFile (dest m)) (redirect True) (redirect True) (status u)]\<rparr>"
                  by blast
                from w4 f3 have f4: "isfile (dest m) w4" by (simp add: isfile_def)
                from w4 fs3 have fs4: "fs w4 = fs w1" by simp
                from Cons.IH [OF went_on(2) f4] obtain new where
                  "r = Inr ()" "isfile (dest m) w'" "\<forall>d. isdir d w4 \<longrightarrow> isdir d w'"
                  "trace w' = trace w4 @ new" "loop_events m new" by auto
                with d1 t1 w3 w4 True al show ?thesis
                  by (auto simp: isdir_fs [OF fs4] echo_def redirect_def intro!: loop_events.alive)
              qed
            qed
          qed
        qed
      qed
    qed
  qed
qed

lemma run_step:
  assumes "procs w = p # ps" and "\<And>f. sout \<noteq> OnFile f"
  shows "run argv sin sout serr w =
           Some (Inr (status p), w\<lparr>procs := ps, trace := trace w @ [Run argv sin sout serr (status p)]\<rparr>)"
  using assms by (cases sout) (auto simp: run_def)

lemma is_alive_step:
  assumes "procs w = p # ps"
  shows "is_alive m w =
           Some (Inr (status p = 0),
                 w\<lparr>procs := ps, trace := trace w @ [Run (check_cmd m) DevNull DevNull DevNull (status p)]\<rparr>)"
  using assms by (simp add: is_alive_def check_cmd_def io_bind_def run_step ret_def)

lemma show_error_step:
  assumes "wait_key (keys w) = Some ks"
  shows "show_error msg w = Some (Inr (), w\<lparr>trace := trace w @ error_screen msg, keys := ks\<rparr>)"
  using assms by (simp add: show_error_def error_screen_def)

lemma upload_step:
  assumes "isfile (dest m) w" and "procs w = p # ps"
  shows "upload m suppress_output w =
           Some (Inr (status p = 0),
                 w\<lparr>procs := ps,
                    trace := trace w @
                      (if suppress_output then [Run (upload_cmd m True) (OnFile (dest m)) DevNull DevNull (status p)]
                       else [Print [Plain (join_with '' '' (map quote (upload_cmd m False)))],
                             Run (upload_cmd m False) (OnFile (dest m)) Inherit Inherit (status p)])\<rparr>)"
  using assms
  by (auto simp: upload_def Let_def io_bind_def read_file_def isfile_def run_step ret_def emit_def
           split: option.splits node.splits)


section \<open>The events of an edit session\<close>

lemma final_upload_shape:
  assumes "final_upload m w = Some (r, w')" and "isfile (dest m) w"
  shows "r = Inr () \<and> fs w' = fs w \<and> (\<exists>new. trace w' = trace w @ new \<and> final_events m new)"
proof -
  let ?w0 = "w\<lparr>trace := trace w @ [ResetTerminal]\<rparr>"
  from assms(1) have
    "io_bind (is_alive m) (\<lambda>alive.
       if alive then
         io_bind (upload m False) (\<lambda>ok.
           if \<not> ok then show_error (''Failed to upload '' @ remote_path m) else ret ())
       else show_error (died_msg m)) ?w0 = Some (r, w')"
    unfolding final_upload_def died_msg_def by simp
  then show ?thesis
  proof (cases rule: io_bindE)
    case (raised e)
    then show ?thesis by (auto elim: is_alive_cases)
  next
    case (went_on alive w1)
    from went_on(1) obtain p ps where al: "alive = (status p = 0)"
      and w1: "w1 = ?w0\<lparr>procs := ps, trace := trace ?w0 @ [Run (check_cmd m) DevNull DevNull DevNull (status p)]\<rparr>"
      by (auto elim: is_alive_cases)
    show ?thesis
    proof (cases alive)
      case False
      with went_on(2) have "show_error (died_msg m) w1 = Some (r, w')" by simp
      then obtain ks where "r = Inr ()" and "w' = w1\<lparr>trace := trace w1 @ error_screen (died_msg m), keys := ks\<rparr>"
        by (auto elim: show_error_cases)
      with w1 al False show ?thesis
        by (auto simp: final_events_def)
    next
      case True
      with went_on(2) have
        up: "io_bind (upload m False) (\<lambda>ok.
           if \<not> ok then show_error (''Failed to upload '' @ remote_path m) else ret ()) w1 = Some (r, w')"
        by simp
      from w1 assms(2) have f1: "isfile (dest m) w1" by simp
      from up show ?thesis
      proof (cases rule: io_bindE)
        case (raised e)
        from raised(1) f1 show ?thesis by (cases rule: upload_cases) simp_all
      next
        case (went_on ok w2)
        have "\<exists>u us. ok = (status u = 0) \<and> w2 = w1\<lparr>procs := us, trace := trace w1 @ echo m False @
                 [Run (upload_cmd m False) (OnFile (dest m)) (redirect False) (redirect False) (status u)]\<rparr>"
          using went_on(1)
        proof (cases rule: upload_cases)
          case (unreadable e)
          with f1 show ?thesis by simp
        next
          case (ran u us)
          then show ?thesis by blast
        qed
        then obtain u us where ok: "ok = (status u = 0)"
          and w2: "w2 = w1\<lparr>procs := us, trace := trace w1 @ echo m False @
                 [Run (upload_cmd m False) (OnFile (dest m)) (redirect False) (redirect False) (status u)]\<rparr>"
          by blast
        show ?thesis
        proof (cases ok)
          case True
          with went_on(2) have "r = Inr ()" "w' = w2" by (simp_all add: ret_def)
          with w1 w2 al \<open>alive\<close> ok True show ?thesis
            by (auto simp: final_events_def redirect_def)
        next
          case False
          with went_on(2) have "show_error (''Failed to upload '' @ remote_path m) w2 = Some (r, w')" by simp
          then obtain ks where "r = Inr ()"
            and "w' = w2\<lparr>trace := trace w2 @ error_screen (''Failed to upload '' @ remote_path m), keys := ks\<rparr>"
            by (auto elim: show_error_cases)
          with w1 w2 al \<open>alive\<close> ok False show ?thesis
            by (auto simp: final_events_def redirect_def)
        qed
      qed
    qed
  qed
qed

definition body_events :: "os_env \<Rightarrow> master \<Rightarrow> event list \<Rightarrow> bool" where
  "body_events env m es \<longleftrightarrow>
     es = [] \<or>
     (\<exists>st. st \<noteq> 0 \<and>
        es = [Run (download_cmd m) DevNull (OnFile (dest m)) DevNull st] @
             error_screen (''Failed to download '' @ remote_path m)) \<or>
     es = [Run (download_cmd m) DevNull (OnFile (dest m)) DevNull 0, ResetTerminal] \<or>
     (\<exists>loop final. loop_events m loop \<and> final_events m final \<and>
        es = [Run (download_cmd m) DevNull (OnFile (dest m)) DevNull 0, ResetTerminal,
              Launch (editor env @ [dest m])] @ loop @ final)"

lemma body_events_raised: "body_events env m []"
  by (simp add: body_events_def)

lemma body_events_failed:
  "st \<noteq> 0 \<Longrightarrow>
   body_events env m ([Run (download_cmd m) DevNull (OnFile (dest m)) DevNull st] @
                      error_screen (''Failed to download '' @ remote_path m))"
  by (simp add: body_events_def)

lemma body_events_no_editor:
  "body_events env m [Run (download_cmd m) DevNull (OnFile (dest m)) DevNull 0, ResetTerminal]"
  by (simp add: body_events_def)

lemma body_events_edited:
  "loop_events m loop \<Longrightarrow> final_events m final \<Longrightarrow>
   body_events env m ([Run (download_cmd m) DevNull (OnFile (dest m)) DevNull 0, ResetTerminal,
                       Launch (editor env @ [dest m])] @ loop @ final)"
  unfolding body_events_def by (intro disjI2) blast

lemma edit_body_shape:
  assumes "edit_body env m w = Some (r, w')"
  shows "(\<forall>d. isdir d w \<longrightarrow> isdir d w') \<and>
         (\<exists>new. trace w' = trace w @ new \<and> body_events env m new) \<and>
         (\<forall>v. r = Inr v \<longrightarrow> v = None)"
  using assms unfolding edit_body_def
proof (cases rule: io_bindE)
  case (raised e)
  from raised(1) raised(2) show ?thesis
    by (cases rule: download_cases) (simp_all add: body_events_raised)
next
  case (went_on ok w1)
  from went_on(1) obtain p ps where nd: "\<not> isdir (dest m) w" and ok: "ok = (status p = 0)"
    and w1: "w1 = w\<lparr>procs := ps,
                   trace := trace w @ [Run (download_cmd m) DevNull (OnFile (dest m)) DevNull (status p)],
                   fs := AList.update (dest m) (File (out p) (now w)) (fs w)\<rparr>"
    by (cases rule: download_cases) (simp_all add: download_cmd_def)
  from w1 have f1: "isfile (dest m) w1" by (simp add: isfile_def update_conv')
  from w1 nd have d1: "\<And>d. isdir d w \<Longrightarrow> isdir d w1"
    by (auto simp: isdir_def lookup_def update_conv' split: option.splits node.splits)
  show ?thesis
  proof (cases ok)
    case False
    with went_on(2) have "io_bind (show_error (''Failed to download '' @ remote_path m)) (\<lambda>_. ret None) w1 = Some (r, w')"
      by simp
    then obtain ks where w': "w' = w1\<lparr>trace := trace w1 @ error_screen (''Failed to download '' @ remote_path m), keys := ks\<rparr>"
      and rn: "r = Inr None"
      by (auto elim!: io_bindE show_error_cases simp: ret_def)
    then have e: "fs w' = fs w1" by simp
    have dirs: "\<forall>d. isdir d w \<longrightarrow> isdir d w'" using d1 isdir_fs [OF e] by simp
    define new where "new = [Run (download_cmd m) DevNull (OnFile (dest m)) DevNull (status p)] @
             error_screen (''Failed to download '' @ remote_path m)"
    have tr: "trace w' = trace w @ new"
      using w' w1 by (simp add: new_def)
    have "body_events env m new"
      unfolding new_def using ok False by (intro body_events_failed) simp
    with dirs tr rn show ?thesis by blast
  next
    case True
    from f1 obtain mt where "getmtime (dest m) w1 = Some (Inr mt, w1)"
      by (auto simp: getmtime_def isfile_def split: option.splits node.splits)
    with went_on(2) True have
      rest: "io_bind (Popen_editor env (dest m)) (\<lambda>editor_process.
               io_bind (edit_loop m editor_process mt) (\<lambda>_.
               io_bind (final_upload m) (\<lambda>_. ret None))) (w1\<lparr>trace := trace w1 @ [ResetTerminal]\<rparr>) = Some (r, w')"
      by (simp add: io_bind_def emit_def)
    let ?w2 = "w1\<lparr>trace := trace w1 @ [ResetTerminal]\<rparr>"
    from rest show ?thesis
    proof (cases rule: io_bindE)
      case (raised e)
      from raised(1) have w': "w' = ?w2" by (cases rule: Popen_editor_cases) simp_all
      then have e: "fs w' = fs w1" by simp
      have dirs: "\<forall>d. isdir d w \<longrightarrow> isdir d w'" using d1 isdir_fs [OF e] by simp
      define new where "new = [Run (download_cmd m) DevNull (OnFile (dest m)) DevNull 0, ResetTerminal]"
      have tr: "trace w' = trace w @ new"
        using w' w1 ok True by (simp add: new_def)
      have "body_events env m new"
        unfolding new_def by (rule body_events_no_editor)
      with dirs tr raised(2) show ?thesis by blast
    next
      case (went_on ts w3)
      from went_on(1) have w3: "w3 = ?w2\<lparr>trace := trace ?w2 @ [Launch (editor env @ [dest m])]\<rparr>"
        by (cases rule: Popen_editor_cases) simp_all
      from w3 f1 have f3: "isfile (dest m) w3" by simp
      from went_on(2) show ?thesis
      proof (cases rule: io_bindE)
        case (raised e)
        from edit_loop_shape [OF raised(1) f3] raised(2) show ?thesis by simp
      next
        case (went_on u w4)
        from edit_loop_shape [OF went_on(1) f3] obtain loop where
          f4: "isfile (dest m) w4" and d4: "\<And>d. isdir d w3 \<Longrightarrow> isdir d w4"
          and t4: "trace w4 = trace w3 @ loop" and l: "loop_events m loop" by auto
        from went_on(2) show ?thesis
        proof (cases rule: io_bindE)
          case (raised e)
          from final_upload_shape [OF raised(1) f4] raised(2) show ?thesis by simp
        next
          case (went_on v w5)
          from final_upload_shape [OF went_on(1) f4] obtain final where
            fs5: "fs w5 = fs w4" and t5: "trace w5 = trace w4 @ final" and fin: "final_events m final" by auto
          from went_on(2) have w': "w' = w5" and rn: "r = Inr None" by (simp_all add: ret_def)
          have e: "fs w3 = fs w1" using w3 by simp
          have dirs: "\<forall>d. isdir d w \<longrightarrow> isdir d w'"
            using d1 d4 w' isdir_fs [OF fs5] isdir_fs [OF e] by simp
          define new where "new = [Run (download_cmd m) DevNull (OnFile (dest m)) DevNull 0, ResetTerminal,
              Launch (editor env @ [dest m])] @ loop @ final"
          have tr: "trace w' = trace w @ new"
            using w' t5 t4 w3 w1 ok True by (simp add: new_def)
          have "body_events env m new"
            unfolding new_def using l fin by (rule body_events_edited)
          with dirs tr rn show ?thesis by blast
        qed
      qed
    qed
  qed
qed

lemma check_call_cases:
  assumes "check_call argv w = Some (r, w')"
  obtains p ps where "procs w = p # ps"
    and "w' = w\<lparr>procs := ps, trace := trace w @ [Run argv Inherit Inherit Inherit (status p)]\<rparr>"
    and "r = (if status p \<noteq> 0 then Inl (CalledProcessError (status p) argv) else Inr ())"
  using assms
  by (cases "procs w") (auto simp: check_call_def io_bind_def run_def raise_def ret_def split: if_splits)

lemma mkdtemp_cases:
  assumes "mkdtemp env w = Some (r, w')"
  obtains (exhausted) e where "r = Inl e" and "w' = w\<lparr>tmpnames := []\<rparr>"
    | (made) d ns where "r = Inr d" and "w' = w\<lparr>tmpnames := ns, fs := AList.update d (Dir (now w)) (fs w)\<rparr>"
  using assms by (auto simp: mkdtemp_def Let_def split: list.splits)

lemma check_cmd_entered [simp]: "check_cmd (m\<lparr>tdir := d, dest := f\<rparr>) = check_cmd m"
  by (simp add: check_cmd_def)

lemma enter_cmd_entered [simp]: "enter_cmd (m\<lparr>tdir := d, dest := f\<rparr>) = enter_cmd m"
  by (simp add: enter_cmd_def)

lemma ControlMaster_enter_cases:
  assumes "ControlMaster_enter env m0 w = Some (r, w1)"
  obtains (refused) e where "r = Inl e" and "fs w1 = fs w"
      and "(\<exists>st. trace w1 = trace w @ [Run (enter_cmd m0) Inherit Inherit Inherit st]) \<or>
           (\<exists>st. trace w1 = trace w @ [Run (enter_cmd m0) Inherit Inherit Inherit 0,
                                        Run (check_cmd m0) Inherit Inherit Inherit st])"
    | (entered) d where "r = Inr (m0\<lparr>tdir := d, dest := join d (basename (remote_path m0))\<rparr>)"
      and "isdir d w1"
      and "trace w1 = trace w @ [Run (enter_cmd m0) Inherit Inherit Inherit 0,
                                 Run (check_cmd m0) Inherit Inherit Inherit 0]"
  using assms unfolding ControlMaster_enter_def
proof (cases rule: io_bindE)
  case (raised e)
  from raised(1) obtain p ps where
    "w1 = w\<lparr>procs := ps, trace := trace w @ [Run (enter_cmd m0) Inherit Inherit Inherit (status p)]\<rparr>"
    by (cases rule: check_call_cases) (simp add: enter_cmd_def)
  then have "fs w1 = fs w" and "\<exists>st. trace w1 = trace w @ [Run (enter_cmd m0) Inherit Inherit Inherit st]"
    by simp_all
  with raised(2) show ?thesis by (intro refused) simp_all
next
  case (went_on x w2)
  from went_on(1) have "\<exists>ps. w2 = w\<lparr>procs := ps, trace := trace w @ [Run (enter_cmd m0) Inherit Inherit Inherit 0]\<rparr>"
    by (cases rule: check_call_cases) (auto simp: enter_cmd_def split: if_splits)
  then obtain ps where w2: "w2 = w\<lparr>procs := ps, trace := trace w @ [Run (enter_cmd m0) Inherit Inherit Inherit 0]\<rparr>"
    by blast
  from went_on(2) show ?thesis
  proof (cases rule: io_bindE)
    case (raised e)
    from raised(1) obtain q qs where
      "w1 = w2\<lparr>procs := qs, trace := trace w2 @ [Run (check_cmd m0) Inherit Inherit Inherit (status q)]\<rparr>"
      by (cases rule: check_call_cases) (simp add: check_cmd_def)
    with w2 have "fs w1 = fs w" and
      "\<exists>st. trace w1 = trace w @ [Run (enter_cmd m0) Inherit Inherit Inherit 0,
                                    Run (check_cmd m0) Inherit Inherit Inherit st]"
      by simp_all
    with raised(2) show ?thesis by (intro refused) simp_all
  next
    case (went_on y w3)
    from went_on(1) have "\<exists>qs. w3 = w2\<lparr>procs := qs, trace := trace w2 @ [Run (check_cmd m0) Inherit Inherit Inherit 0]\<rparr>"
      by (cases rule: check_call_cases) (auto simp: check_cmd_def split: if_splits)
    then obtain qs where
      w3: "w3 = w2\<lparr>procs := qs, trace := trace w2 @ [Run (check_cmd m0) Inherit Inherit Inherit 0]\<rparr>"
      by blast
    from went_on(2) show ?thesis
    proof (cases rule: io_bindE)
      case (raised e)
      from raised(1) have "w1 = w3\<lparr>tmpnames := []\<rparr>" by (cases rule: mkdtemp_cases) simp_all
      with w2 w3 have "fs w1 = fs w" and
        "\<exists>st. trace w1 = trace w @ [Run (enter_cmd m0) Inherit Inherit Inherit 0,
                                      Run (check_cmd m0) Inherit Inherit Inherit st]"
        by simp_all
      with raised(2) show ?thesis by (intro refused) simp_all
    next
      case (went_on d w4)
      from went_on(1) obtain ns where w4: "w4 = w3\<lparr>tmpnames := ns, fs := AList.update d (Dir (now w3)) (fs w3)\<rparr>"
        by (cases rule: mkdtemp_cases) simp_all
      from went_on(2) have r: "r = Inr (m0\<lparr>tdir := d, dest := join d (basename (remote_path m0))\<rparr>)"
        and w1: "w1 = w4" by (simp_all add: ret_def)
      from w1 w4 have "isdir d w1" by (simp add: isdir_def update_conv')
      moreover from w1 w4 w3 w2 have "trace w1 = trace w @ [Run (enter_cmd m0) Inherit Inherit Inherit 0,
                                 Run (check_cmd m0) Inherit Inherit Inherit 0]" by simp
      ultimately show ?thesis using r by (intro entered)
    qed
  qed
qed

lemma ControlMaster_exit_cases:
  assumes "ControlMaster_exit m w = Some (r, w')" and "isdir (tdir m) w"
  shows "\<exists>st. r = Inr True \<and> (\<forall>q. under_dir (tdir m) q \<longrightarrow> \<not> path_exists q w') \<and>
              trace w' = trace w @ [Run (exit_cmd m) DevNull DevNull DevNull st]"
  using assms(1) unfolding ControlMaster_exit_def
proof (cases rule: io_bindE)
  case (raised e)
  then show ?thesis by (auto elim: run_cases)
next
  case (went_on x w1)
  from went_on(1) obtain p where t1: "trace w1 = trace w @ [Run (exit_cmd m) DevNull DevNull DevNull (status p)]"
    and fs1: "fs w1 = fs w"
    by (cases rule: run_cases) (simp_all add: exit_cmd_def)
  from assms(2) isdir_fs [OF fs1] have "isdir (tdir m) w1" by simp
  then obtain t where look: "lookup (tdir m) w1 = Some (Dir t)"
    by (auto simp: isdir_def split: option.splits node.splits)
  with went_on(2) have r: "r = Inr True"
    and w': "w' = w1\<lparr>fs := filter (\<lambda>(p, n). \<not> under_dir (tdir m) p) (fs w1)\<rparr>"
    by (simp_all add: io_bind_def rmtree_def ret_def)
  from w' have gone: "\<And>q. under_dir (tdir m) q \<Longrightarrow> \<not> path_exists q w'"
    by (simp add: path_exists_def map_of_filter_under)
  from w' t1 have "trace w' = trace w @ [Run (exit_cmd m) DevNull DevNull DevNull (status p)]" by simp
  with r gone show ?thesis by blast
qed

lemma with_ControlMaster_cleanup:
  assumes enter: "ControlMaster_enter env (ControlMaster_init env c rpath) w = Some (Inr m, w1)"
      and body: "body m w1 = Some (outcome, w2)"
      and dir: "isdir (tdir m) w2"
      and whole: "with_ControlMaster env c rpath body w = Some (r, w')"
  shows "(\<forall>q. under_dir (tdir m) q \<longrightarrow> \<not> path_exists q w') \<and>
         r = (case outcome of Inl e \<Rightarrow> Inr None | Inr v \<Rightarrow> Inr v) \<and>
         (\<exists>st. trace w' = trace w2 @ [Run (exit_cmd m) DevNull DevNull DevNull st])"
proof -
  from whole enter body have
    *: "(case ControlMaster_exit m w2 of
              None \<Rightarrow> None
            | Some (Inl e, w'') \<Rightarrow> Some (Inl e, w'')
            | Some (Inr suppress, w'') \<Rightarrow>
                (case outcome of
                   Inr v \<Rightarrow> Some (Inr v, w'')
                 | Inl e \<Rightarrow> if suppress then Some (Inr None, w'') else Some (Inl e, w''))) = Some (r, w')"
    by (simp add: with_ControlMaster_def io_bind_def)
  then obtain x w3 where ex: "ControlMaster_exit m w2 = Some (x, w3)"
    by (cases "ControlMaster_exit m w2") auto
  from ControlMaster_exit_cases [OF ex dir] obtain st where x: "x = Inr True"
    and gone: "\<And>q. under_dir (tdir m) q \<Longrightarrow> \<not> path_exists q w3"
    and t3: "trace w3 = trace w2 @ [Run (exit_cmd m) DevNull DevNull DevNull st]"
    by blast
  from * ex x have "w' = w3" and "r = (case outcome of Inl e \<Rightarrow> Inr None | Inr v \<Rightarrow> Inr v)"
    by (auto split: sum.splits)
  with gone t3 show ?thesis by blast
qed


section \<open>Uploads and liveness reports\<close>





















section \<open>The final upload\<close>

text \<open>
  C2: at the final upload (lines 294 to 299) the liveness probe is the next subprocess.
  When it exits with a status other than zero, no further subprocess is run (no upload
  command), the error screen with the reason \<open>SSH master process died\<close> is shown, and
  the step returns once a key is pressed. When it exits with zero, the upload runs
  with the command line echoed and its output inherited, and when the upload exits with
  a status other than zero the error screen \<open>Failed to upload\<close> is shown. (\<open>ks\<close> is
  the input left after the key that dismisses an error screen.)
\<close>

theorem final_upload_outcome:
  assumes "procs w = p # ps" and "wait_key (keys w) = Some ks"
  shows "(status p \<noteq> 0 \<longrightarrow>
            final_upload m w =
              Some (Inr (),
                    w\<lparr>procs := ps, keys := ks,
                       trace := trace w @
                         [ResetTerminal, Run (check_cmd m) DevNull DevNull DevNull (status p)] @
                         error_screen (''Failed to upload '' @ remote_path m @ '', SSH master process died'')\<rparr>)) \<and>
         (status p = 0 \<longrightarrow>
            (\<forall>u us. ps = u # us \<and> isfile (dest m) w \<longrightarrow>
               final_upload m w =
                 Some (Inr (),
                       w\<lparr>procs := us, keys := (if status u = 0 then keys w else ks),
                          trace := trace w @
                            [ResetTerminal, Run (check_cmd m) DevNull DevNull DevNull 0,
                             Print [Plain (join_with '' '' (map quote (upload_cmd m False)))],
                             Run (upload_cmd m False) (OnFile (dest m)) Inherit Inherit (status u)] @
                            (if status u = 0 then []
                             else error_screen (''Failed to upload '' @ remote_path m))\<rparr>)))"
proof (intro conjI impI allI)
  let ?w0 = "w\<lparr>trace := trace w @ [ResetTerminal]\<rparr>"
  have alive: "is_alive m ?w0 =
      Some (Inr (status p = 0),
            ?w0\<lparr>procs := ps, trace := trace ?w0 @ [Run (check_cmd m) DevNull DevNull DevNull (status p)]\<rparr>)"
    by (rule is_alive_step) (simp add: assms)
  {
    assume dead: "status p \<noteq> 0"
    let ?w1 = "?w0\<lparr>procs := ps, trace := trace ?w0 @ [Run (check_cmd m) DevNull DevNull DevNull (status p)]\<rparr>"
    have "wait_key (keys ?w1) = Some ks" using assms by simp
    from show_error_step [OF this] dead alive
    show "final_upload m w =
              Some (Inr (),
                    w\<lparr>procs := ps, keys := ks,
                       trace := trace w @
                         [ResetTerminal, Run (check_cmd m) DevNull DevNull DevNull (status p)] @
                         error_screen (''Failed to upload '' @ remote_path m @ '', SSH master process died'')\<rparr>)"
      by (simp add: final_upload_def io_bind_def emit_def)
  }
  {
    fix u us
    assume ok: "status p = 0" and rest: "ps = u # us \<and> isfile (dest m) w"
    let ?w1 = "?w0\<lparr>procs := ps, trace := trace ?w0 @ [Run (check_cmd m) DevNull DevNull DevNull (status p)]\<rparr>"
    have f: "isfile (dest m) ?w1" and pr: "procs ?w1 = u # us"
      using rest by (simp_all add: isfile_def)
    let ?w2 = "?w1\<lparr>procs := us, trace := trace ?w1 @
                  [Print [Plain (join_with '' '' (map quote (upload_cmd m False)))],
                   Run (upload_cmd m False) (OnFile (dest m)) Inherit Inherit (status u)]\<rparr>"
    have up: "upload m False ?w1 = Some (Inr (status u = 0), ?w2)"
      using upload_step [OF f pr, of False] by simp
    have "wait_key (keys ?w2) = Some ks" using assms by simp
    from show_error_step [OF this] up alive ok
    show "final_upload m w =
                 Some (Inr (),
                       w\<lparr>procs := us, keys := (if status u = 0 then keys w else ks),
                          trace := trace w @
                            [ResetTerminal, Run (check_cmd m) DevNull DevNull DevNull 0,
                             Print [Plain (join_with '' '' (map quote (upload_cmd m False)))],
                             Run (upload_cmd m False) (OnFile (dest m)) Inherit Inherit (status u)] @
                            (if status u = 0 then []
                             else error_screen (''Failed to upload '' @ remote_path m))\<rparr>)"
      by (simp add: final_upload_def io_bind_def emit_def ret_def)
  }
qed

theorem final_upload_outcome_witness:
  "final_upload sample_master (staged_world\<lparr>procs := [Proc 255 []], keys := [Byte CHR ''q'']\<rparr>) =
     Some (Inr (),
           staged_world\<lparr>procs := [], keys := [],
             trace := [ResetTerminal, Run (check_cmd sample_master) DevNull DevNull DevNull 255] @
                      error_screen ''Failed to upload /etc/hosts, SSH master process died''\<rparr>)"
  using final_upload_outcome [of "staged_world\<lparr>procs := [Proc 255 []], keys := [Byte CHR ''q'']\<rparr>"
          "Proc 255 []" "[]" "[]" sample_master]
  by (simp add: staged_world_def sample_world_def sample_master_def ControlMaster_init_def)

text \<open>
  The whole edit flow on a session whose liveness goes from alive to dead: the first
  save is uploaded, the second is not, and at the end no upload runs and the user is
  told that the SSH master process died.
\<close>

lemma liveness_toggles_during_edit:
  "handle_action sample_env ''edit'' sample_opts toggling_world =
     Some (Inr None,
           toggling_world\<lparr>procs := [], keys := [],
             trace :=
               [Print [Plain ''Editing /etc/hosts from box''],
                Run (enter_cmd sample_master) Inherit Inherit Inherit 0,
                Run (check_cmd sample_master) Inherit Inherit Inherit 0,
                Run (download_cmd sample_master) DevNull (OnFile ''/tmp/tmpabc/hosts'') DevNull 0,
                ResetTerminal,
                Launch [''vim'', ''/tmp/tmpabc/hosts''],
                Run (check_cmd sample_master) DevNull DevNull DevNull 0,
                Run (upload_cmd sample_master True) (OnFile ''/tmp/tmpabc/hosts'') DevNull DevNull 0,
                Run (check_cmd sample_master) DevNull DevNull DevNull 255,
                ResetTerminal,
                Run (check_cmd sample_master) DevNull DevNull DevNull 255] @
               error_screen ''Failed to upload /etc/hosts, SSH master process died'' @
               [Run (exit_cmd sample_master) DevNull DevNull DevNull 0],
             tmpnames := []\<rparr>)"
  by code_simp

section \<open>The scratch directory\<close>

text \<open>
  C3: once \<^verbatim>\<open>__enter__\<close> has returned the session, however the body of the
  \<^verbatim>\<open>with\<close> statement ends (normal completion, the early return after a failed
  download, a failed upload, or an exception raised in the body), when the statement
  is left nothing exists at or under the scratch directory, and the statement yields
  \<^verbatim>\<open>None\<close>.
\<close>

theorem scratch_dir_removed:
  assumes "ControlMaster_enter env (ControlMaster_init env c rpath) w = Some (Inr m, w1)"
      and "with_ControlMaster env c rpath (edit_body env) w = Some (r, w')"
  shows "r = Inr None \<and> (\<forall>p. under_dir (tdir m) p \<longrightarrow> \<not> path_exists p w')"
proof -
  from assms(1) have dir1: "isdir (tdir m) w1"
    by (cases rule: ControlMaster_enter_cases) auto
  from assms have "edit_body env m w1 \<noteq> None"
    by (auto simp: with_ControlMaster_def io_bind_def split: option.splits)
  then obtain outcome w2 where body: "edit_body env m w1 = Some (outcome, w2)" by auto
  from edit_body_shape [OF body] dir1 have dir2: "isdir (tdir m) w2" by blast
  from edit_body_shape [OF body] have none: "\<And>v. outcome = Inr v \<Longrightarrow> v = None"
    by blast
  from with_ControlMaster_cleanup [OF assms(1) body dir2 assms(2)] none show ?thesis
    by (auto split: sum.splits)
qed

theorem scratch_dir_removed_witness:
  "\<exists>r w'. with_ControlMaster sample_env box ''/etc/hosts'' (edit_body sample_env) no_editor_world = Some (r, w') \<and>
          r = Inr None \<and> \<not> path_exists ''/tmp/tmpabc'' w' \<and> \<not> path_exists ''/tmp/tmpabc/hosts'' w'"
proof -
  have "map_option fst (ControlMaster_enter sample_env (ControlMaster_init sample_env box ''/etc/hosts'') no_editor_world) =
          Some (Inr sample_master)"
    by code_simp
  then obtain w1 where
    enter: "ControlMaster_enter sample_env (ControlMaster_init sample_env box ''/etc/hosts'') no_editor_world =
              Some (Inr sample_master, w1)"
    by auto
  have "with_ControlMaster sample_env box ''/etc/hosts'' (edit_body sample_env) no_editor_world \<noteq> None"
    by code_simp
  then obtain r w' where
    whole: "with_ControlMaster sample_env box ''/etc/hosts'' (edit_body sample_env) no_editor_world = Some (r, w')"
    by auto
  have 1: "under_dir (tdir sample_master) ''/tmp/tmpabc''"
    and 2: "under_dir (tdir sample_master) ''/tmp/tmpabc/hosts''"
    by (simp_all add: under_dir_def sample_master_def)
  from scratch_dir_removed [OF enter whole] 1 2 whole show ?thesis by blast
qed

section \<open>Unhandled exceptions\<close>

text \<open>
  \<^verbatim>\<open>main\<close> reports every \<^verbatim>\<open>Exception\<close> that \<^verbatim>\<open>handle_action\<close> raises: it resets
  the terminal, prints the traceback and shows the error screen.
\<close>

lemma main_reports_exception:
  assumes "io_finally (ask_action cli_opts) (emit ResetTerminal) (w\<lparr>trace := trace w @ [CursorVisible False]\<rparr>) =
             Some (Inr action, w1)"
      and "handle_action env action cli_opts w1 = Some (Inl e, w2)"
      and "is_Exception e"
      and "wait_key (keys w2) = Some ks"
  shows "main env (Inr cli_opts) w =
           Some (Inr None,
                 w2\<lparr>trace := trace w2 @ [ResetTerminal, Traceback e] @
                               error_screen ''Failed with unhandled exception'',
                    keys := ks\<rparr>)"
proof -
  let ?w3 = "w2\<lparr>trace := trace w2 @ [ResetTerminal, Traceback e]\<rparr>"
  have "wait_key (keys ?w3) = Some ks" using assms(4) by simp
  from show_error_step [OF this, of "''Failed with unhandled exception''"] assms(1,2,3)
  show ?thesis
    by (simp add: main_def io_bind_def emit_def io_catch_def ret_def)
qed

text \<open>The two events by which \<^verbatim>\<open>main\<close> reports an unhandled exception.\<close>

fun reports_failure :: "event \<Rightarrow> bool" where
  "reports_failure (Traceback e) = True"
| "reports_failure (Print ps) = (ps = [Styled ''Failed with unhandled exception''])"
| "reports_failure e = False"

text \<open>
  In the open flow an exception (here \<^verbatim>\<open>mkdtemp\<close> finds no free name) is reported.
\<close>

lemma open_exception_is_reported:
  "map_option (\<lambda>(r, w'). (r, filter reports_failure (trace w')))
     (main sample_env (Inr sample_opts)
        (sample_world\<lparr>fs := [(''/tmp/tmpabc'', Dir 0)], keys := [Byte CHR ''o'', Byte CHR ''q'']\<rparr>)) =
   Some (Inr None, [Traceback (FileExistsError ''/tmp''), Print [Styled ''Failed with unhandled exception'']])"
  by code_simp

text \<open>
  The claim C4 says that this holds for every flow, the body of the \<^verbatim>\<open>with\<close>
  statement of the edit flow included. \<^verbatim>\<open>ControlMaster.__exit__\<close> returns
  \<^verbatim>\<open>True\<close>, which makes the \<^verbatim>\<open>with\<close> statement drop any exception of its body.
  When the editor cannot be started, the body raises \<^verbatim>\<open>FileNotFoundError\<close>:
\<close>

lemma exception_in_body:
  "map_option fst (edit_body sample_env sample_master
      (staged_world\<lparr>fs := [(''/tmp'', Dir 0), (''/tmp/tmpabc'', Dir 5)], procs := [Proc 0 ''data'', Proc 0 []]\<rparr>)) =
   Some (Inl (FileNotFoundError ''vim''))"
  by code_simp

text \<open>
  C4 at this input: \<^verbatim>\<open>main\<close> returns \<^verbatim>\<open>None\<close> and its trace holds neither a
  traceback nor the line \<open>Failed with unhandled exception\<close>.
\<close>

theorem edit_exception_is_swallowed:
  "map_option (\<lambda>(r, w'). (r, filter reports_failure (trace w')))
     (main sample_env (Inr sample_opts) (no_editor_world\<lparr>keys := [Byte CHR ''e'']\<rparr>)) =
   Some (Inr None, [])"
  by code_simp

end
